theory Spec2Isabelle
  imports Main "HOL-Library.Word"
begin

unbundle bit_operations_syntax

section \<open>AF\_XDP sockets: machine integers and error codes\<close>

type_synonym u8 = "8 word"
type_synonym u32 = "32 word"
type_synonym u64 = "64 word"

text \<open>
  The C functions return \<open>int\<close>: \<open>0\<close> on success, a negated errno on failure.
  The spec's names for the error kinds: \<open>invalid\<close> is \<open>EINVAL\<close>, \<open>nospace\<close> is
  \<open>ENOSPC\<close>, \<open>nobufs\<close> is \<open>ENOBUFS\<close>, \<open>notsupported\<close> is \<open>EOPNOTSUPP\<close>, \<open>again\<close> is
  \<open>EAGAIN\<close>, \<open>msgsize\<close> is \<open>EMSGSIZE\<close>, \<open>noxio\<close> is \<open>ENXIO\<close>, \<open>netdown\<close> is
  \<open>ENETDOWN\<close>, \<open>nodev\<close> is \<open>ENODEV\<close>, \<open>badhandle\<close> is \<open>EBADF\<close>, \<open>busy\<close> is
  \<open>EBUSY\<close>, \<open>nomem\<close> is \<open>ENOMEM\<close>.
\<close>

definition ENXIO :: int where "ENXIO = 6"
definition EBADF :: int where "EBADF = 9"
definition EAGAIN :: int where "EAGAIN = 11"
definition ENOMEM :: int where "ENOMEM = 12"
definition EFAULT :: int where "EFAULT = 14"
definition EBUSY :: int where "EBUSY = 16"
definition ENODEV :: int where "ENODEV = 19"
definition EINVAL :: int where "EINVAL = 22"
definition ENOSPC :: int where "ENOSPC = 28"
definition ENOTSOCK :: int where "ENOTSOCK = 88"
definition EMSGSIZE :: int where "EMSGSIZE = 90"
definition ENOPROTOOPT :: int where "ENOPROTOOPT = 92"
definition EOPNOTSUPP :: int where "EOPNOTSUPP = 95"
definition ENETDOWN :: int where "ENETDOWN = 100"
definition ENOBUFS :: int where "ENOBUFS = 105"

text \<open>
  Modelled from the spec: \<open>struct xdp_desc\<close> (linux/if\_xdp.h is not among the sources),
  a descriptor of an rx or tx ring, \<open>{index: u32, length: u32, offset: u32}\<close>.
\<close>

record xdp_desc =
  idx :: u32
  len :: u32
  offset :: u32

section \<open>The sample program's ring helpers (samples/bpf/xdpsock\_user.c)\<close>

text \<open>
  \<open>struct xdp_rxtx_ring\<close> is the ring as mapped into the process: the two shared
  counters and the slot array. The array is a map from slot number to descriptor; the
  helpers only ever address slot \<open>cached_prod AND mask\<close>.
\<close>

record xdp_rxtx_ring =
  ptrs_producer :: u32
  ptrs_consumer :: u32
  desc :: "u32 \<Rightarrow> xdp_desc"

record xdp_uqueue =
  cached_prod :: u32
  cached_cons :: u32
  uq_mask :: u32
  uq_size :: u32
  uq_ring :: xdp_rxtx_ring

text \<open>The 60 bytes of the canned frame \<open>pkt_data\<close> (the C array has a final NUL more).\<close>

definition pkt_data :: "u8 list" where
  "pkt_data =
    [0x3c, 0xfd, 0xfe, 0x9e, 0x7f, 0x71, 0xec, 0xb1, 0xd7, 0x98, 0x3a, 0xc0, 0x08, 0x00, 0x45, 0x00,
     0x00, 0x2e, 0x00, 0x00, 0x00, 0x00, 0x40, 0x11, 0x88, 0x97, 0x05, 0x08, 0x07, 0x08, 0xc8, 0x14,
     0x1e, 0x04, 0x10, 0x92, 0x10, 0x92, 0x00, 0x1a, 0x6d, 0xa3, 0x34, 0x33, 0x1f, 0x69, 0x40, 0x6b,
     0x54, 0x59, 0xb6, 0x14, 0x2d, 0x11, 0x44, 0xbf, 0xaf, 0xd9, 0xbe, 0xaa]"

definition sizeof_pkt_data :: nat where
  "sizeof_pkt_data = length pkt_data + 1"

text \<open>
  \<open>xq_nb_free\<close>: the free entries as the cached counters give them; when they are fewer
  than asked, the cached consumer is refreshed from the shared ring first.
\<close>

definition xq_nb_free :: "xdp_uqueue \<Rightarrow> u32 \<Rightarrow> u32 \<times> xdp_uqueue" where
  "xq_nb_free q ndescs =
    (let free_entries = cached_cons q - cached_prod q in
     if free_entries \<ge> ndescs then (free_entries, q)
     else
       (let q' = q\<lparr>cached_cons := ptrs_consumer (uq_ring q) + uq_size q\<rparr>
        in (cached_cons q' - cached_prod q', q')))"

text \<open>
  The body of the \<open>for\<close> loop of \<open>xq_enq_tx_only\<close> at loop counter \<open>i\<close>. The block
  declares \<open>u32 idx = uq->cached_prod++ & uq->mask\<close>, which hides the function's
  parameter \<open>idx\<close>: the \<open>idx + i\<close> stored into the descriptor reads the slot number.
\<close>

definition xq_enq_tx_only_body :: "xdp_uqueue \<Rightarrow> u32 \<Rightarrow> xdp_uqueue" where
  "xq_enq_tx_only_body uq i =
    (let idx' = cached_prod uq AND uq_mask uq;
         uq1 = uq\<lparr>cached_prod := cached_prod uq + 1\<rparr>;
         d = \<lparr>idx = idx' + i, len = of_nat (sizeof_pkt_data - 1), offset = 0\<rparr>;
         r = uq_ring uq1
     in uq1\<lparr>uq_ring := r\<lparr>desc := (desc r)(idx' := d)\<rparr>\<rparr>)"

text \<open>\<open>for (i = 0; i < ndescs; i++)\<close>: \<open>n\<close> iterations are left, the counter is at \<open>i\<close>.\<close>

fun xq_enq_tx_only_loop :: "nat \<Rightarrow> u32 \<Rightarrow> xdp_uqueue \<Rightarrow> xdp_uqueue" where
  "xq_enq_tx_only_loop 0 i uq = uq"
| "xq_enq_tx_only_loop (Suc n) i uq = xq_enq_tx_only_loop n (i + 1) (xq_enq_tx_only_body uq i)"

definition xq_enq_tx_only :: "xdp_uqueue \<Rightarrow> u32 \<Rightarrow> u32 \<Rightarrow> int \<times> xdp_uqueue" where
  "xq_enq_tx_only uq idx_arg ndescs =
    (case xq_nb_free uq ndescs of (free_entries, uq0) \<Rightarrow>
       if free_entries < ndescs then (- ENOSPC, uq0)
       else
         (let uq1 = xq_enq_tx_only_loop (unat ndescs) 0 uq0;
              r = uq_ring uq1
          in (0, uq1\<lparr>uq_ring := r\<lparr>ptrs_producer := cached_prod uq1\<rparr>\<rparr>)))"


section \<open>Rings (net/xdp/xsk\_queue.h)\<close>

text \<open>
  Modelled from the spec: \<open>props\<close>, the snapshot of the umem's geometry that a ring
  validates descriptors against.
\<close>

record xdp_umem_props =
  props_frame_size :: u32
  props_nframes :: u32

text \<open>
  Modelled from the spec: \<open>struct xsk_queue\<close> (xsk\_queue.h is not among the sources).
  A ring has a power-of-two capacity \<open>nentries\<close>, the mask \<open>nentries - 1\<close>, a producer
  and a consumer counter (32-bit, free-running) and its slots; slot \<open>i AND ring_mask\<close>
  holds entry \<open>i\<close>. \<open>prod_head\<close> is the producer's private counter: it runs ahead of
  \<open>producer\<close> by the slots that are reserved or written but not yet published.
  \<open>invalid_descs\<close> counts the descriptors that validation rejected; \<open>umem_props\<close>
  is \<open>None\<close> until bind attaches the umem's \<open>props\<close>.
\<close>

record 'a xsk_queue =
  umem_props :: "xdp_umem_props option"
  nentries :: u32
  ring_mask :: u32
  prod_head :: u32
  producer :: u32
  consumer :: u32
  ring_slots :: "u32 \<Rightarrow> 'a"
  invalid_descs :: u64

text \<open>
  Modelled from the spec: ring construction. The first argument is the content of a
  fresh (zeroed) slot; it stands for the C flag \<open>umem_queue\<close>, which selects the slot type.
\<close>

definition xskq_create :: "'a \<Rightarrow> u32 \<Rightarrow> 'a xsk_queue" where
  "xskq_create zero_slot entries =
    \<lparr>umem_props = None, nentries = entries, ring_mask = entries - 1,
     prod_head = 0, producer = 0, consumer = 0,
     ring_slots = (\<lambda>_. zero_slot), invalid_descs = 0\<rparr>"

text \<open>Modelled from the spec: bind attaches \<open>props\<close> to a ring, if the ring exists.\<close>

definition xskq_set_umem :: "'a xsk_queue option \<Rightarrow> xdp_umem_props \<Rightarrow> 'a xsk_queue option" where
  "xskq_set_umem q p = map_option (\<lambda>r. r\<lparr>umem_props := Some p\<rparr>) q"

text \<open>
  Modelled from the spec: the slots the producer may still take (capacity minus what is
  published or reserved and not yet consumed) and the entries published to the consumer,
  both in wrap-around arithmetic.
\<close>

definition xskq_nb_free :: "'a xsk_queue \<Rightarrow> u32" where
  "xskq_nb_free q = nentries q - (prod_head q - consumer q)"

definition xskq_nb_avail :: "'a xsk_queue \<Rightarrow> u32" where
  "xskq_nb_avail q = producer q - consumer q"

text \<open>
  Modelled from the spec: descriptor validation. A fill or completion ring checks only
  the index bound; an rx or tx ring also checks \<open>offset + length \<le> frame_size\<close>.
  Without \<open>props\<close> nothing is checked.
\<close>

definition xskq_is_valid_id :: "u32 xsk_queue \<Rightarrow> u32 \<Rightarrow> bool" where
  "xskq_is_valid_id q i =
    (case umem_props q of None \<Rightarrow> True | Some p \<Rightarrow> i < props_nframes p)"

definition xskq_is_valid_desc :: "xdp_desc xsk_queue \<Rightarrow> xdp_desc \<Rightarrow> bool" where
  "xskq_is_valid_desc q d =
    (case umem_props q of None \<Rightarrow> True
     | Some p \<Rightarrow> idx d < props_nframes p \<and> unat (offset d) + unat (len d) \<le> unat (props_frame_size p))"

text \<open>
  Modelled from the spec: peek. The consumer looks at the oldest published entry without
  taking it; an entry that fails validation is counted in \<open>invalid_descs\<close> and skipped
  (treated as consumed). The first argument bounds the walk by the published entries.
\<close>

fun xskq_validate ::
  "('a xsk_queue \<Rightarrow> 'a \<Rightarrow> bool) \<Rightarrow> nat \<Rightarrow> 'a xsk_queue \<Rightarrow> 'a option \<times> 'a xsk_queue" where
  "xskq_validate valid 0 q = (None, q)"
| "xskq_validate valid (Suc n) q =
    (let d = ring_slots q (consumer q AND ring_mask q) in
     if valid q d then (Some d, q)
     else xskq_validate valid n
            (q\<lparr>consumer := consumer q + 1, invalid_descs := invalid_descs q + 1\<rparr>))"

definition xskq_peek_id :: "u32 xsk_queue \<Rightarrow> u32 option \<times> u32 xsk_queue" where
  "xskq_peek_id q = xskq_validate xskq_is_valid_id (unat (xskq_nb_avail q)) q"

definition xskq_peek_desc :: "xdp_desc xsk_queue \<Rightarrow> xdp_desc option \<times> xdp_desc xsk_queue" where
  "xskq_peek_desc q = xskq_validate xskq_is_valid_desc (unat (xskq_nb_avail q)) q"

text \<open>Modelled from the spec: discard consumes the peeked entry (the consumer counter advances).\<close>

definition xskq_discard_id :: "u32 xsk_queue \<Rightarrow> u32 xsk_queue" where
  "xskq_discard_id q = q\<lparr>consumer := consumer q + 1\<rparr>"

definition xskq_discard_desc :: "xdp_desc xsk_queue \<Rightarrow> xdp_desc xsk_queue" where
  "xskq_discard_desc q = q\<lparr>consumer := consumer q + 1\<rparr>"

text \<open>
  Modelled from the spec: reserve takes one free slot without publishing anything
  (\<open>nospace\<close> when none is free); produce writes the index into the next slot and publishes
  it, and reports \<open>nospace\<close> on a ring whose published entries fill the capacity.
\<close>

definition xskq_reserve_id :: "u32 xsk_queue \<Rightarrow> int \<times> u32 xsk_queue" where
  "xskq_reserve_id q =
    (if xskq_nb_free q = 0 then (- ENOSPC, q)
     else (0, q\<lparr>prod_head := prod_head q + 1\<rparr>))"

definition xskq_produce_id :: "u32 xsk_queue \<Rightarrow> u32 \<Rightarrow> int \<times> u32 xsk_queue" where
  "xskq_produce_id q i =
    (if producer q - consumer q = nentries q then (- ENOSPC, q)
     else (0, q\<lparr>ring_slots := (ring_slots q)(producer q AND ring_mask q := i),
                producer := producer q + 1\<rparr>))"

text \<open>
  Modelled from the spec: producing on the rx ring writes the descriptor
  \<open>{index, len, offset}\<close> into the next free slot, \<open>nospace\<close> when the ring is full; the
  flush publishes what was written.
\<close>

definition xskq_produce_batch_desc ::
  "xdp_desc xsk_queue \<Rightarrow> u32 \<Rightarrow> u32 \<Rightarrow> u32 \<Rightarrow> int \<times> xdp_desc xsk_queue" where
  "xskq_produce_batch_desc q i l off =
    (if xskq_nb_free q = 0 then (- ENOSPC, q)
     else (0, q\<lparr>ring_slots := (ring_slots q)(prod_head q AND ring_mask q :=
                                   \<lparr>idx = i, len = l, offset = off\<rparr>),
                prod_head := prod_head q + 1\<rparr>))"

definition xskq_produce_flush_desc :: "xdp_desc xsk_queue \<Rightarrow> xdp_desc xsk_queue" where
  "xskq_produce_flush_desc q = q\<lparr>producer := prod_head q\<rparr>"

text \<open>The entries a ring holds for its consumer (published, not yet consumed), oldest first.\<close>

definition xskq_contents :: "'a xsk_queue \<Rightarrow> 'a list" where
  "xskq_contents q =
    map (\<lambda>i. ring_slots q ((consumer q + of_nat i) AND ring_mask q)) [0..<unat (xskq_nb_avail q)]"

text \<open>The entries written by the producer and not yet consumed, published or not.\<close>

definition xskq_written :: "'a xsk_queue \<Rightarrow> 'a list" where
  "xskq_written q =
    map (\<lambda>i. ring_slots q ((consumer q + of_nat i) AND ring_mask q))
      [0..<unat (prod_head q - consumer q)]"

section \<open>Umem (net/xdp/xdp\_umem.h)\<close>

text \<open>
  Modelled from the spec: \<open>struct xdp_umem\<close> (xdp\_umem.h is not among the sources): the
  registered buffer at \<open>umem_addr\<close>, cut into \<open>nframes\<close> frames of \<open>frame_size\<close> bytes,
  the headroom, \<open>props\<close>, the fill ring \<open>fq\<close>, the completion ring \<open>cq\<close> and the
  reference count.
\<close>

record xdp_umem =
  umem_addr :: u64
  frame_size :: u32
  frame_headroom :: u32
  nframes :: u32
  props :: xdp_umem_props
  fq :: "u32 xsk_queue option"
  cq :: "u32 xsk_queue option"
  users :: nat

text \<open>
  Modelled from the spec: \<open>data(i) = base + i * frame_size\<close> and
  \<open>data_with_headroom(i) = data(i) + headroom\<close>.
\<close>

definition xdp_umem_get_data :: "xdp_umem \<Rightarrow> u32 \<Rightarrow> u64" where
  "xdp_umem_get_data u i = umem_addr u + ucast i * ucast (frame_size u)"

definition xdp_umem_get_data_with_headroom :: "xdp_umem \<Rightarrow> u32 \<Rightarrow> u64" where
  "xdp_umem_get_data_with_headroom u i = xdp_umem_get_data u i + ucast (frame_headroom u)"

text \<open>Modelled from the spec: does the umem have both a fill ring and a completion ring?\<close>

definition xdp_umem_validate_queues :: "xdp_umem \<Rightarrow> bool" where
  "xdp_umem_validate_queues u = (fq u \<noteq> None \<and> cq u \<noteq> None)"

text \<open>Modelled from the spec: taking and dropping a reference to a umem.\<close>

definition xdp_get_umem :: "xdp_umem \<Rightarrow> xdp_umem" where
  "xdp_get_umem u = u\<lparr>users := users u + 1\<rparr>"

definition xdp_put_umem :: "xdp_umem \<Rightarrow> xdp_umem" where
  "xdp_put_umem u = u\<lparr>users := users u - 1\<rparr>"

section \<open>Kernel state\<close>

text \<open>
  The structures the socket code reaches through pointers live in a store keyed by
  address; a pointer that may be \<open>NULL\<close> is an \<open>option\<close>. \<open>struct net_device\<close> with the
  fields the code reads:
\<close>

record net_device =
  mtu :: u32
  dev_flags :: u32
  num_rx_queues :: u32

definition IFF_UP :: u32 where "IFF_UP = 1"

text \<open>
  \<open>struct xdp_sock\<close>, with the fields of the \<open>struct sock\<close> it starts with that the code
  reads. \<open>dev\<close> and \<open>umem\<close> are pointers into the store.
\<close>

record xdp_sock =
  sk_family :: nat
  sk_priority :: u32
  sk_mark :: u32
  dev :: "nat option"
  queue_id :: u32
  umem :: "nat option"
  rx :: "xdp_desc xsk_queue option"
  tx :: "xdp_desc xsk_queue option"
  rx_dropped :: u64

definition AF_XDP :: nat where "AF_XDP = 44"
definition PF_XDP :: nat where "PF_XDP = AF_XDP"
definition SOL_XDP :: int where "SOL_XDP = 283"

text \<open>
  A transmit buffer: the socket and device it belongs to, the bytes copied out of the
  frame, and the destructor's argument (the frame index).
\<close>

record sk_buff =
  skb_sk :: nat
  skb_dev :: nat
  skb_priority :: u32
  skb_mark :: u32
  skb_data :: "u8 list"
  destructor_arg :: u32

text \<open>
  The buffer the hook delivers: its payload (the bytes from \<open>data\<close> to \<open>data_end\<close>) and
  the device and queue of \<open>rxq\<close>.
\<close>

record xdp_buff =
  xdp_data :: "u8 list"
  rxq_dev :: nat
  rxq_queue_index :: u32

text \<open>
  Calls into the rest of the kernel (the socket layer, the device layer, RCU) are
  recorded in a trace, in the order the code makes them.
\<close>

datatype event =
    Synchronize_net
  | Dev_hold nat
  | Dev_put nat
  | Sockfd_lookup int
  | Sockfd_put nat
  | Xdp_return_buff
  | Sk_data_ready nat
  | Sk_write_space nat
  | Warn_on_once
  | Sock_wfree
  | Kfree_skb
  | Dev_direct_xmit sk_buff u32
  | Sock_prot_inuse_add int
  | Sock_orphan nat
  | Sock_put nat

text \<open>
  The state: \<open>socket_sk\<close> is the field \<open>sk\<close> of each \<open>struct socket\<close>; \<open>xsks\<close>, \<open>umems\<close>
  and \<open>netdevs\<close> are the stores; \<open>dev_by_index\<close> and \<open>fdtable\<close> answer
  \<open>dev_get_by_index\<close> and \<open>sockfd_lookup\<close>; \<open>memory\<close> is the byte memory the frames
  live in; \<open>inflight\<close> are the transmit buffers handed to the device whose destructor has
  not run yet; \<open>warned\<close> is the once-flag of \<open>WARN_ON_ONCE\<close>. The model is sequential: the
  socket mutex is not modelled.
\<close>

record kstate =
  socket_sk :: "nat \<Rightarrow> nat option"
  xsks :: "nat \<Rightarrow> xdp_sock"
  umems :: "nat \<Rightarrow> xdp_umem"
  netdevs :: "nat \<Rightarrow> net_device"
  dev_by_index :: "u32 \<Rightarrow> nat option"
  fdtable :: "int \<Rightarrow> nat option"
  memory :: "u64 \<Rightarrow> u8"
  inflight :: "sk_buff list"
  warned :: bool
  trace :: "event list"

definition log_event :: "event list \<Rightarrow> kstate \<Rightarrow> kstate" where
  "log_event es s = s\<lparr>trace := trace s @ es\<rparr>"

definition set_xsk :: "nat \<Rightarrow> xdp_sock \<Rightarrow> kstate \<Rightarrow> kstate" where
  "set_xsk xs x s = s\<lparr>xsks := (xsks s)(xs := x)\<rparr>"

definition set_rx :: "nat \<Rightarrow> xdp_desc xsk_queue \<Rightarrow> kstate \<Rightarrow> kstate" where
  "set_rx xs q s = set_xsk xs ((xsks s xs)\<lparr>rx := Some q\<rparr>) s"

definition set_tx :: "nat \<Rightarrow> xdp_desc xsk_queue \<Rightarrow> kstate \<Rightarrow> kstate" where
  "set_tx xs q s = set_xsk xs ((xsks s xs)\<lparr>tx := Some q\<rparr>) s"

definition set_umem :: "nat \<Rightarrow> xdp_umem \<Rightarrow> kstate \<Rightarrow> kstate" where
  "set_umem up u s = s\<lparr>umems := (umems s)(up := u)\<rparr>"

definition set_fq :: "nat \<Rightarrow> u32 xsk_queue \<Rightarrow> kstate \<Rightarrow> kstate" where
  "set_fq up q s = set_umem up ((umems s up)\<lparr>fq := Some q\<rparr>) s"

definition set_cq :: "nat \<Rightarrow> u32 xsk_queue \<Rightarrow> kstate \<Rightarrow> kstate" where
  "set_cq up q s = set_umem up ((umems s up)\<lparr>cq := Some q\<rparr>) s"

text \<open>\<open>memcpy\<close> writes the bytes at \<open>dst\<close>, \<open>dst + 1\<close>, ...; \<open>memread\<close> reads \<open>n\<close> bytes.\<close>

definition memcpy :: "(u64 \<Rightarrow> u8) \<Rightarrow> u64 \<Rightarrow> u8 list \<Rightarrow> (u64 \<Rightarrow> u8)" where
  "memcpy m dst bs = (\<lambda>a. if unat (a - dst) < length bs then bs ! unat (a - dst) else m a)"

definition memread :: "(u64 \<Rightarrow> u8) \<Rightarrow> u64 \<Rightarrow> nat \<Rightarrow> u8 list" where
  "memread m src n = map (\<lambda>i. m (src + of_nat i)) [0..<n]"

section \<open>The receive path (net/xdp/xsk.c)\<close>

definition xsk_is_setup_for_bpf_map :: "xdp_sock \<Rightarrow> bool" where
  "xsk_is_setup_for_bpf_map x = (rx x \<noteq> None)"

text \<open>
  \<open>__xsk_rcv\<close>. The result is \<open>None\<close> where the C code dereferences a \<open>NULL\<close> pointer
  (a socket without umem, fill ring or rx ring). \<open>len\<close> is \<open>data_end - data\<close> as a
  \<open>u32\<close>. There is no comparison of \<open>len\<close> with the frame size anywhere on this path.
\<close>

definition u_xsk_rcv :: "kstate \<Rightarrow> nat \<Rightarrow> xdp_buff \<Rightarrow> (int \<times> kstate) option" where
  "u_xsk_rcv s xs xdp =
    (let x = xsks s xs; l = (of_nat (length (xdp_data xdp)) :: u32) in
     if dev x \<noteq> Some (rxq_dev xdp) \<or> queue_id x \<noteq> rxq_queue_index xdp
     then Some (- EINVAL, s)
     else
       (case umem x of None \<Rightarrow> None
        | Some up \<Rightarrow>
          (case fq (umems s up) of None \<Rightarrow> None
           | Some q \<Rightarrow>
             (case xskq_peek_id q of
                (None, q') \<Rightarrow> Some (- ENOSPC, set_fq up q' s)
              | (Some i, q') \<Rightarrow>
                (let s1 = set_fq up q' s;
                     buffer = xdp_umem_get_data_with_headroom (umems s1 up) i;
                     s2 = s1\<lparr>memory := memcpy (memory s1) buffer (take (unat l) (xdp_data xdp))\<rparr>
                 in case rx x of None \<Rightarrow> None
                    | Some r \<Rightarrow>
                      (case xskq_produce_batch_desc r i l (frame_headroom (umems s2 up)) of
                         (err, r') \<Rightarrow>
                           (let s3 = set_rx xs r' s2 in
                            if err = 0 then Some (err, set_fq up (xskq_discard_id q') s3)
                            else Some (err, s3))))))))"

definition inc_rx_dropped :: "nat \<Rightarrow> kstate \<Rightarrow> kstate" where
  "inc_rx_dropped xs s = set_xsk xs ((xsks s xs)\<lparr>rx_dropped := rx_dropped (xsks s xs) + 1\<rparr>) s"

definition xsk_rcv :: "kstate \<Rightarrow> nat \<Rightarrow> xdp_buff \<Rightarrow> (int \<times> kstate) option" where
  "xsk_rcv s xs xdp =
    (case u_xsk_rcv s xs xdp of None \<Rightarrow> None
     | Some (err, s') \<Rightarrow>
         if err = 0 then Some (err, log_event [Xdp_return_buff] s')
         else Some (err, inc_rx_dropped xs s'))"

definition xsk_flush :: "kstate \<Rightarrow> nat \<Rightarrow> kstate option" where
  "xsk_flush s xs =
    (case rx (xsks s xs) of None \<Rightarrow> None
     | Some r \<Rightarrow> Some (log_event [Sk_data_ready xs] (set_rx xs (xskq_produce_flush_desc r) s)))"

definition xsk_generic_rcv :: "kstate \<Rightarrow> nat \<Rightarrow> xdp_buff \<Rightarrow> (int \<times> kstate) option" where
  "xsk_generic_rcv s xs xdp =
    (case u_xsk_rcv s xs xdp of None \<Rightarrow> None
     | Some (err, s') \<Rightarrow>
         if err = 0 then map_option (Pair err) (xsk_flush s' xs)
         else Some (err, inc_rx_dropped xs s'))"

section \<open>The transmit path (net/xdp/xsk.c)\<close>

definition TX_BATCH_SIZE :: nat where "TX_BATCH_SIZE = 16"
definition MSG_DONTWAIT :: u32 where "MSG_DONTWAIT = 0x40"
definition NET_XMIT_DROP :: int where "NET_XMIT_DROP = 1"
definition NETDEV_TX_BUSY :: int where "NETDEV_TX_BUSY = 0x10"

text \<open>\<open>WARN_ON_ONCE(cond)\<close>: the diagnostic is printed the first time \<open>cond\<close> holds.\<close>

definition WARN_ON_ONCE :: "bool \<Rightarrow> kstate \<Rightarrow> kstate" where
  "WARN_ON_ONCE cond s =
    (if cond \<and> \<not> warned s then log_event [Warn_on_once] (s\<lparr>warned := True\<rparr>) else s)"

text \<open>
  \<open>xsk_destruct_skb\<close>, run when the device layer or the stack releases the buffer. The
  return value of \<open>xskq_produce_id\<close> goes to \<open>WARN_ON_ONCE\<close>. \<open>None\<close>: the socket has no
  umem or the umem no completion ring (a \<open>NULL\<close> dereference in C).
\<close>

definition xsk_destruct_skb :: "kstate \<Rightarrow> sk_buff \<Rightarrow> kstate option" where
  "xsk_destruct_skb s skb =
    (let i = destructor_arg skb; x = xsks s (skb_sk skb) in
     case umem x of None \<Rightarrow> None
     | Some up \<Rightarrow>
       (case cq (umems s up) of None \<Rightarrow> None
        | Some c \<Rightarrow>
          (case xskq_produce_id c i of
             (err, c') \<Rightarrow>
               Some (log_event [Sock_wfree]
                 ((WARN_ON_ONCE (err \<noteq> 0) (set_cq up c' s))
                    \<lparr>inflight := remove1 skb (inflight s)\<rparr>)))))"

text \<open>
  What the rest of the kernel answers in one iteration of the transmit loop: whether
  \<open>sock_alloc_send_skb\<close> returns a buffer, the result of \<open>skb_store_bits\<close> and the
  result of \<open>dev_direct_xmit\<close>.
\<close>

record xmit_env =
  alloc_skb_ok :: bool
  store_bits_err :: int
  xmit_ret :: int

text \<open>
  One iteration of the loop of \<open>xsk_generic_xmit\<close>, from the reservation on the
  completion ring to the discard of the descriptor. \<open>Inl err\<close> is \<open>goto out\<close> with
  \<open>err\<close>; \<open>Inr err\<close> is the end of the body (with \<open>sent_frame = true\<close>). A buffer passed
  to \<open>dev_direct_xmit\<close> joins \<open>inflight\<close> whatever the device answers: its destructor
  runs when the device layer frees it.
\<close>

definition xsk_generic_xmit_body ::
  "xmit_env \<Rightarrow> nat \<Rightarrow> xdp_desc \<Rightarrow> kstate \<Rightarrow> ((int + int) \<times> kstate) option" where
  "xsk_generic_xmit_body e sk d s =
    (let x = xsks s sk in
     case umem x of None \<Rightarrow> None
     | Some up \<Rightarrow>
       (case cq (umems s up) of None \<Rightarrow> None
        | Some c \<Rightarrow>
          (case xskq_reserve_id c of
             (rerr, c') \<Rightarrow>
               (let s1 = set_cq up c' s in
                if rerr \<noteq> 0 then Some (Inl (- EAGAIN), s1)
                else
                  (case dev x of None \<Rightarrow> None
                   | Some dv \<Rightarrow>
                     if len d > mtu (netdevs s1 dv) then Some (Inl (- EMSGSIZE), s1)
                     else if \<not> alloc_skb_ok e then Some (Inl (- EAGAIN), s1)
                     else
                       (let i = idx d;
                            buffer = xdp_umem_get_data (umems s1 up) i + ucast (offset d);
                            skb = \<lparr>skb_sk = sk, skb_dev = dv, skb_priority = sk_priority x,
                                   skb_mark = sk_mark x,
                                   skb_data = memread (memory s1) buffer (unat (len d)),
                                   destructor_arg = i\<rparr>
                        in if store_bits_err e \<noteq> 0
                           then Some (Inl (store_bits_err e), log_event [Kfree_skb] s1)
                           else
                             (let s2 = log_event [Dev_direct_xmit skb (queue_id x)]
                                         (s1\<lparr>inflight := inflight s1 @ [skb]\<rparr>);
                                  err = xmit_ret e
                              in if err = NET_XMIT_DROP \<or> err = NETDEV_TX_BUSY
                                 then Some (Inl (- EAGAIN), s2)
                                 else
                                   (case tx (xsks s2 sk) of None \<Rightarrow> None
                                    | Some t \<Rightarrow>
                                        Some (Inr err, set_tx sk (xskq_discard_desc t) s2)))))))))"

text \<open>
  The \<open>while\<close> loop: \<open>max_batch\<close> is what is left of the batch, \<open>i\<close> counts the
  iterations (it selects the environment's answers), \<open>sent_frame\<close> and \<open>err\<close> are the
  C variables. The result is \<open>(err, sent_frame, state)\<close> at the label \<open>out\<close>.
\<close>

fun xsk_generic_xmit_loop ::
  "(nat \<Rightarrow> xmit_env) \<Rightarrow> nat \<Rightarrow> nat \<Rightarrow> nat \<Rightarrow> bool \<Rightarrow> int \<Rightarrow> kstate \<Rightarrow>
     (int \<times> bool \<times> kstate) option" where
  "xsk_generic_xmit_loop env sk 0 i sent_frame err s =
    (case tx (xsks s sk) of None \<Rightarrow> None
     | Some t \<Rightarrow>
       (case xskq_peek_desc t of
          (None, t') \<Rightarrow> Some (err, sent_frame, set_tx sk t' s)
        | (Some d, t') \<Rightarrow> Some (- EAGAIN, sent_frame, set_tx sk t' s)))"
| "xsk_generic_xmit_loop env sk (Suc max_batch) i sent_frame err s =
    (case tx (xsks s sk) of None \<Rightarrow> None
     | Some t \<Rightarrow>
       (case xskq_peek_desc t of
          (None, t') \<Rightarrow> Some (err, sent_frame, set_tx sk t' s)
        | (Some d, t') \<Rightarrow>
          (case xsk_generic_xmit_body (env i) sk d (set_tx sk t' s) of
             None \<Rightarrow> None
           | Some (Inl err', s') \<Rightarrow> Some (err', sent_frame, s')
           | Some (Inr err', s') \<Rightarrow>
               xsk_generic_xmit_loop env sk max_batch (Suc i) True err' s')))"

definition xsk_generic_xmit ::
  "kstate \<Rightarrow> nat \<Rightarrow> u32 \<Rightarrow> (nat \<Rightarrow> xmit_env) \<Rightarrow> (int \<times> kstate) option" where
  "xsk_generic_xmit s sk msg_flags env =
    (let need_wait = (msg_flags AND MSG_DONTWAIT = 0) in
     if tx (xsks s sk) = None then Some (- ENOBUFS, s)
     else if need_wait then Some (- EOPNOTSUPP, s)
     else
       (case xsk_generic_xmit_loop env sk TX_BATCH_SIZE 0 False 0 s of
          None \<Rightarrow> None
        | Some (err, sent_frame, s') \<Rightarrow>
            Some (err, if sent_frame then log_event [Sk_write_space sk] s' else s')))"

definition xsk_sendmsg ::
  "kstate \<Rightarrow> nat \<Rightarrow> u32 \<Rightarrow> (nat \<Rightarrow> xmit_env) \<Rightarrow> (int \<times> kstate) option" where
  "xsk_sendmsg s sock msg_flags env =
    (case socket_sk s sock of None \<Rightarrow> None
     | Some sk \<Rightarrow>
       (case dev (xsks s sk) of None \<Rightarrow> Some (- ENXIO, s)
        | Some dv \<Rightarrow>
            if dev_flags (netdevs s dv) AND IFF_UP = 0 then Some (- ENETDOWN, s)
            else xsk_generic_xmit s sk msg_flags env))"

section \<open>Ring creation, release, bind, setsockopt (net/xdp/xsk.c)\<close>

text \<open>Modelled from the spec: a capacity is a power of two (nonzero, one bit set).\<close>

definition is_power_of_2 :: "u64 \<Rightarrow> bool" where
  "is_power_of_2 n = (n \<noteq> 0 \<and> n AND (n - 1) = 0)"

text \<open>
  \<open>xsk_init_queue\<close>. \<open>zero_slot\<close> stands for the flag \<open>umem_queue\<close> (see \<open>xskq_create\<close>);
  \<open>alloc_ok\<close> says whether \<open>xskq_create\<close> gets its memory.
\<close>

definition xsk_init_queue ::
  "'a \<Rightarrow> bool \<Rightarrow> u32 \<Rightarrow> 'a xsk_queue option \<Rightarrow> int \<times> 'a xsk_queue option" where
  "xsk_init_queue zero_slot alloc_ok entries queue =
    (if entries = 0 \<or> queue \<noteq> None \<or> \<not> is_power_of_2 (ucast entries) then (- EINVAL, queue)
     else if \<not> alloc_ok then (- ENOMEM, queue)
     else (0, Some (xskq_create zero_slot entries)))"

text \<open>\<open>__xsk_release\<close>: wait for the driver to stop using the socket, then drop the device.\<close>

definition u_xsk_release :: "kstate \<Rightarrow> nat \<Rightarrow> kstate option" where
  "u_xsk_release s xs =
    (let s1 = log_event [Synchronize_net] s in
     case dev (xsks s1 xs) of None \<Rightarrow> None
     | Some dv \<Rightarrow> Some (log_event [Dev_put dv] s1))"

definition xsk_release :: "kstate \<Rightarrow> nat \<Rightarrow> (int \<times> kstate) option" where
  "xsk_release s sock =
    (case socket_sk s sock of None \<Rightarrow> Some (0, s)
     | Some sk \<Rightarrow>
       (let s1 = log_event [Sock_prot_inuse_add (- 1)] s;
            s2 = (if dev (xsks s1 sk) \<noteq> None
                  then map_option (\<lambda>s'. set_xsk sk ((xsks s' sk)\<lparr>dev := None\<rparr>) s')
                         (u_xsk_release s1 sk)
                  else Some s1)
        in case s2 of None \<Rightarrow> None
           | Some s3 \<Rightarrow>
               Some (0, log_event [Sock_put sk]
                          ((log_event [Sock_orphan sk] s3)
                             \<lparr>socket_sk := (socket_sk s3)(sock := None)\<rparr>))))"

text \<open>
  \<open>xsk_lookup_xsk_from_fd\<close>: \<open>Inl err\<close> is \<open>ERR_PTR(err)\<close>, \<open>Inr sock\<close> the socket.
\<close>

definition xsk_lookup_xsk_from_fd :: "kstate \<Rightarrow> int \<Rightarrow> ((int + nat) \<times> kstate) option" where
  "xsk_lookup_xsk_from_fd s fd =
    (let s1 = log_event [Sockfd_lookup fd] s in
     case fdtable s1 fd of None \<Rightarrow> Some (Inl (- ENOTSOCK), s1)
     | Some sock \<Rightarrow>
       (case socket_sk s1 sock of None \<Rightarrow> None
        | Some sk \<Rightarrow>
            if sk_family (xsks s1 sk) \<noteq> PF_XDP
            then Some (Inl (- ENOPROTOOPT), log_event [Sockfd_put sock] s1)
            else Some (Inr sock, s1)))"

text \<open>
  Modelled from the spec: \<open>struct sockaddr_xdp\<close>,
  \<open>{family, flags, ifindex, queue_id, shared_umem_handle}\<close>, 16 bytes, and the flag
  \<open>SHARED_UMEM = 0x1\<close>.
\<close>

record sockaddr_xdp =
  sxdp_family :: nat
  sxdp_flags :: "16 word"
  sxdp_ifindex :: u32
  sxdp_queue_id :: u32
  sxdp_shared_umem_fd :: u32

definition sizeof_sockaddr_xdp :: u64 where "sizeof_sockaddr_xdp = 16"
definition XDP_SHARED_UMEM :: "16 word" where "XDP_SHARED_UMEM = 1"

text \<open>
  The branch \<open>if (sxdp->sxdp_flags & XDP_SHARED_UMEM) ... else if ... else ...\<close> of
  \<open>xsk_bind\<close>: the result is \<open>(err, old_umem, state)\<close>; a nonzero \<open>err\<close> is
  \<open>goto out_unlock\<close>.
\<close>

definition xsk_bind_umem ::
  "kstate \<Rightarrow> nat \<Rightarrow> sockaddr_xdp \<Rightarrow> nat \<Rightarrow> (int \<times> nat option \<times> kstate) option" where
  "xsk_bind_umem s sk sxdp dv =
    (let x = xsks s sk in
     if sxdp_flags sxdp AND XDP_SHARED_UMEM \<noteq> 0 then
       (if umem x \<noteq> None then Some (- EINVAL, None, s)
        else
          (case xsk_lookup_xsk_from_fd s (sint (sxdp_shared_umem_fd sxdp)) of
             None \<Rightarrow> None
           | Some (Inl err, s1) \<Rightarrow> Some (err, None, s1)
           | Some (Inr sock', s1) \<Rightarrow>
             (case socket_sk s1 sock' of None \<Rightarrow> None
              | Some sk' \<Rightarrow>
                (let umem_xs = xsks s1 sk' in
                 case umem umem_xs of
                   None \<Rightarrow> Some (- EBADF, None, log_event [Sockfd_put sock'] s1)
                 | Some up \<Rightarrow>
                     if dev umem_xs \<noteq> Some dv \<or> queue_id umem_xs \<noteq> sxdp_queue_id sxdp
                     then Some (- EINVAL, None, log_event [Sockfd_put sock'] s1)
                     else
                       (let s2 = set_umem up (xdp_get_umem (umems s1 up)) s1;
                            old_umem = umem (xsks s2 sk);
                            s3 = set_xsk sk ((xsks s2 sk)\<lparr>umem := Some up\<rparr>) s2
                        in Some (0, old_umem, log_event [Sockfd_put sock'] s3))))))
     else
       (case umem x of None \<Rightarrow> Some (- EINVAL, None, s)
        | Some up \<Rightarrow>
            if \<not> xdp_umem_validate_queues (umems s up) then Some (- EINVAL, None, s)
            else
              (let u = umems s up;
                   u1 = u\<lparr>fq := xskq_set_umem (fq u) (props u)\<rparr>;
                   u2 = u1\<lparr>cq := xskq_set_umem (cq u1) (props u1)\<rparr>
               in Some (0, None, set_umem up u2 s))))"

text \<open>
  \<open>xsk_bind\<close>. \<open>addr_len\<close> is an \<open>int\<close> compared with a \<open>size_t\<close>, that is, as an
  unsigned 64-bit number. \<open>dev_get_by_index\<close> takes a reference to the device; every
  failure after it drops the reference again (\<open>out_unlock\<close>).
\<close>

definition xsk_bind :: "kstate \<Rightarrow> nat \<Rightarrow> sockaddr_xdp \<Rightarrow> int \<Rightarrow> (int \<times> kstate) option" where
  "xsk_bind s sock sxdp addr_len =
    (if (word_of_int addr_len :: u64) < sizeof_sockaddr_xdp then Some (- EINVAL, s)
     else if sxdp_family sxdp \<noteq> AF_XDP then Some (- EINVAL, s)
     else
       (case socket_sk s sock of None \<Rightarrow> None
        | Some sk \<Rightarrow>
          (let dev_curr = dev (xsks s sk) in
           case dev_by_index s (sxdp_ifindex sxdp) of
             None \<Rightarrow> Some (- ENODEV, s)
           | Some dv \<Rightarrow>
             (let s0 = log_event [Dev_hold dv] s;
                  out_unlock = (\<lambda>err s'. Some (err, if err \<noteq> 0 then log_event [Dev_put dv] s' else s'))
              in if rx (xsks s0 sk) = None \<and> tx (xsks s0 sk) = None then out_unlock (- EINVAL) s0
                 else if sxdp_queue_id sxdp \<ge> num_rx_queues (netdevs s0 dv)
                 then out_unlock (- EINVAL) s0
                 else
                   (case xsk_bind_umem s0 sk sxdp dv of None \<Rightarrow> None
                    | Some (err, old_umem, s1) \<Rightarrow>
                        if err \<noteq> 0 then out_unlock err s1
                        else
                          (let s2 =
                                 (if dev_curr \<noteq> None \<and>
                                     (dev_curr \<noteq> Some dv \<or> queue_id (xsks s1 sk) \<noteq> sxdp_queue_id sxdp)
                                  then map_option
                                         (\<lambda>s'. case old_umem of None \<Rightarrow> s'
                                               | Some ou \<Rightarrow> set_umem ou (xdp_put_umem (umems s' ou)) s')
                                         (u_xsk_release s1 sk)
                                  else Some s1)
                           in case s2 of None \<Rightarrow> None
                              | Some s3 \<Rightarrow>
                                (case umem (xsks s3 sk) of None \<Rightarrow> None
                                 | Some up \<Rightarrow>
                                   (let x = xsks s3 sk; p = props (umems s3 up);
                                        x1 = x\<lparr>dev := Some dv, queue_id := sxdp_queue_id sxdp\<rparr>;
                                        x2 = x1\<lparr>rx := xskq_set_umem (rx x1) p\<rparr>;
                                        x3 = x2\<lparr>tx := xskq_set_umem (tx x2) p\<rparr>
                                    in out_unlock 0 (set_xsk sk x3 s3)))))))))"

text \<open>
  The options of \<open>xsk_setsockopt\<close>; \<open>XDP_OTHER\<close> is any other option name (the
  \<open>default\<close> branch).
\<close>

datatype optname =
    XDP_RX_RING
  | XDP_TX_RING
  | XDP_UMEM_REG
  | XDP_UMEM_FILL_RING
  | XDP_UMEM_COMPLETION_RING
  | XDP_OTHER

text \<open>Modelled from the spec: the umem registration record \<open>{addr, len, frame_size, headroom}\<close>.\<close>

record xdp_umem_reg =
  reg_addr :: u64
  reg_len :: u64
  reg_frame_size :: u32
  reg_frame_headroom :: u32

text \<open>
  The user buffer \<open>optval\<close>, as \<open>copy_from_user\<close> reads it: as an \<open>int\<close> (the requested
  capacity) and as a registration record; \<open>None\<close> where the copy faults.
\<close>

record user_optval =
  optval_entries :: "u32 option"
  optval_mr :: "xdp_umem_reg option"

text \<open>
  What the rest of the kernel answers during a \<open>setsockopt\<close>: whether the ring gets its
  memory, whether the umem's pages can be pinned, and the address of a newly allocated
  umem.
\<close>

record sockopt_env =
  queue_alloc_ok :: bool
  umem_pin_ok :: bool
  umem_new :: nat

definition PAGE_SIZE :: u64 where "PAGE_SIZE = 4096"

text \<open>
  Modelled from the spec: umem registration. The base address is page-aligned, the
  length a positive multiple of the frame size, the frame size a power of two, the
  headroom below the frame size, and the number of frames fits its 32-bit field;
  \<open>invalid\<close> otherwise, \<open>nomem\<close> when the pages cannot be pinned.
\<close>

definition xdp_umem_reg :: "bool \<Rightarrow> xdp_umem_reg \<Rightarrow> int + xdp_umem" where
  "xdp_umem_reg pin_ok mr =
    (let fs = reg_frame_size mr; hr = reg_frame_headroom mr in
     if reg_addr mr AND (PAGE_SIZE - 1) \<noteq> 0 \<or> reg_len mr = 0 \<or> \<not> is_power_of_2 (ucast fs) \<or>
        reg_len mr mod ucast fs \<noteq> 0 \<or> hr \<ge> fs \<or> reg_len mr div ucast fs > 0xFFFFFFFF
     then Inl (- EINVAL)
     else if \<not> pin_ok then Inl (- ENOMEM)
     else Inr \<lparr>umem_addr = reg_addr mr, frame_size = fs, frame_headroom = hr,
               nframes = ucast (reg_len mr div ucast fs),
               props = \<lparr>props_frame_size = fs, props_nframes = ucast (reg_len mr div ucast fs)\<rparr>,
               fq = None, cq = None, users = 1\<rparr>)"

definition zero_desc :: xdp_desc where
  "zero_desc = \<lparr>idx = 0, len = 0, offset = 0\<rparr>"

text \<open>
  \<open>xsk_setsockopt\<close>. \<open>optlen\<close> is compared with \<open>sizeof(int)\<close> for the rx and tx
  rings only. \<open>None\<close>: the socket has no \<open>sk\<close>.
\<close>

definition xsk_setsockopt ::
  "kstate \<Rightarrow> nat \<Rightarrow> int \<Rightarrow> optname \<Rightarrow> user_optval \<Rightarrow> u32 \<Rightarrow> sockopt_env \<Rightarrow>
     (int \<times> kstate) option" where
  "xsk_setsockopt s sock level opt optval optlen e =
    (if level \<noteq> SOL_XDP then Some (- ENOPROTOOPT, s)
     else if opt = XDP_RX_RING \<or> opt = XDP_TX_RING then
       (if optlen < 4 then Some (- EINVAL, s)
        else
          (case optval_entries optval of None \<Rightarrow> Some (- EFAULT, s)
           | Some entries \<Rightarrow>
             (case socket_sk s sock of None \<Rightarrow> None
              | Some sk \<Rightarrow>
                (let x = xsks s sk in
                 if opt = XDP_TX_RING
                 then (case xsk_init_queue zero_desc (queue_alloc_ok e) entries (tx x) of
                         (err, q) \<Rightarrow> Some (err, set_xsk sk (x\<lparr>tx := q\<rparr>) s))
                 else (case xsk_init_queue zero_desc (queue_alloc_ok e) entries (rx x) of
                         (err, q) \<Rightarrow> Some (err, set_xsk sk (x\<lparr>rx := q\<rparr>) s))))))
     else if opt = XDP_UMEM_REG then
       (case socket_sk s sock of None \<Rightarrow> None
        | Some sk \<Rightarrow>
            if umem (xsks s sk) \<noteq> None then Some (- EBUSY, s)
            else
              (case optval_mr optval of None \<Rightarrow> Some (- EFAULT, s)
               | Some mr \<Rightarrow>
                 (case xdp_umem_reg (umem_pin_ok e) mr of
                    Inl err \<Rightarrow> Some (err, s)
                  | Inr u \<Rightarrow>
                      Some (0, set_xsk sk ((xsks s sk)\<lparr>umem := Some (umem_new e)\<rparr>)
                                 (set_umem (umem_new e) u s)))))
     else if opt = XDP_UMEM_FILL_RING \<or> opt = XDP_UMEM_COMPLETION_RING then
       (case socket_sk s sock of None \<Rightarrow> None
        | Some sk \<Rightarrow>
          (case umem (xsks s sk) of None \<Rightarrow> Some (- EINVAL, s)
           | Some up \<Rightarrow>
             (case optval_entries optval of None \<Rightarrow> Some (- EFAULT, s)
              | Some entries \<Rightarrow>
                (let u = umems s up in
                 if opt = XDP_UMEM_FILL_RING
                 then (case xsk_init_queue 0 (queue_alloc_ok e) entries (fq u) of
                         (err, q) \<Rightarrow> Some (err, set_umem up (u\<lparr>fq := q\<rparr>) s))
                 else (case xsk_init_queue 0 (queue_alloc_ok e) entries (cq u) of
                         (err, q) \<Rightarrow> Some (err, set_umem up (u\<lparr>cq := q\<rparr>) s))))))
     else Some (- ENOPROTOOPT, s))"

section \<open>Concrete states\<close>

text \<open>A user-side tx ring of four slots, all free, producer at 0.\<close>

definition w_uq :: xdp_uqueue where
  "w_uq = \<lparr>cached_prod = 0, cached_cons = 4, uq_mask = 3, uq_size = 4,
           uq_ring = \<lparr>ptrs_producer = 0, ptrs_consumer = 0, desc = (\<lambda>_. zero_desc)\<rparr>\<rparr>"

text \<open>
  The scenarios of the spec (E2, E4) as one state. Device 1 (\<open>lo\<close>, interface index 1)
  is up, has one rx queue and MTU 1500. Umem 0 has 8 frames of 2048 bytes at address
  \<open>0x100000\<close>, no headroom; its fill ring (capacity 8) holds the indices \<open>0..7\<close>, its
  completion ring (capacity 4) is empty. The socket at address 3 (file descriptor 5) is
  bound to \<open>(lo, 0)\<close>; its rx ring has capacity 2 and is empty; its tx ring has capacity
  4 and holds the descriptor \<open>{0, 2000, 0}\<close>. Socket 4 (file descriptor 6) is a fresh
  socket of this family; socket 7 (file descriptor 8) belongs to another family.
\<close>

definition null_sock :: xdp_sock where
  "null_sock = \<lparr>sk_family = 0, sk_priority = 0, sk_mark = 0, dev = None, queue_id = 0,
                umem = None, rx = None, tx = None, rx_dropped = 0\<rparr>"

definition null_umem :: xdp_umem where
  "null_umem = \<lparr>umem_addr = 0, frame_size = 0, frame_headroom = 0, nframes = 0,
                props = \<lparr>props_frame_size = 0, props_nframes = 0\<rparr>,
                fq = None, cq = None, users = 0\<rparr>"

definition demo_props :: xdp_umem_props where
  "demo_props = \<lparr>props_frame_size = 2048, props_nframes = 8\<rparr>"

definition demo_fq :: "u32 xsk_queue" where
  "demo_fq = \<lparr>umem_props = Some demo_props, nentries = 8, ring_mask = 7,
              prod_head = 8, producer = 8, consumer = 0,
              ring_slots = (\<lambda>i. i), invalid_descs = 0\<rparr>"

definition demo_cq :: "u32 xsk_queue" where
  "demo_cq = (xskq_create 0 4)\<lparr>umem_props := Some demo_props\<rparr>"

definition demo_rx :: "xdp_desc xsk_queue" where
  "demo_rx = (xskq_create zero_desc 2)\<lparr>umem_props := Some demo_props\<rparr>"

definition demo_tx :: "xdp_desc xsk_queue" where
  "demo_tx = (xskq_create zero_desc 4)
     \<lparr>umem_props := Some demo_props, prod_head := 1, producer := 1,
      ring_slots := (\<lambda>_. zero_desc)(0 := \<lparr>idx = 0, len = 2000, offset = 0\<rparr>)\<rparr>"

definition demo_umem :: xdp_umem where
  "demo_umem = \<lparr>umem_addr = 0x100000, frame_size = 2048, frame_headroom = 0, nframes = 8,
                props = demo_props, fq = Some demo_fq, cq = Some demo_cq, users = 1\<rparr>"

definition demo_sock :: xdp_sock where
  "demo_sock = \<lparr>sk_family = PF_XDP, sk_priority = 0, sk_mark = 0, dev = Some 1, queue_id = 0,
                umem = Some 0, rx = Some demo_rx, tx = Some demo_tx, rx_dropped = 0\<rparr>"

definition demo_state :: kstate where
  "demo_state =
    \<lparr>socket_sk = (\<lambda>_. None)(3 := Some 3, 4 := Some 4, 7 := Some 7),
     xsks = (\<lambda>_. null_sock)(3 := demo_sock, 4 := null_sock\<lparr>sk_family := PF_XDP\<rparr>,
                               7 := null_sock\<lparr>sk_family := 2\<rparr>),
     umems = (\<lambda>_. null_umem)(0 := demo_umem),
     netdevs = (\<lambda>_. \<lparr>mtu = 1500, dev_flags = 1, num_rx_queues = 1\<rparr>),
     dev_by_index = (\<lambda>_. None)(1 := Some 1),
     fdtable = (\<lambda>_. None)(5 := Some 3, 6 := Some 4, 8 := Some 7),
     memory = (\<lambda>_. 0),
     inflight = [],
     warned = False,
     trace = []\<rparr>"

text \<open>A buffer of \<open>n\<close> bytes \<open>0xAB\<close> delivered by the hook for \<open>(lo, 0)\<close>.\<close>

definition demo_buff :: "nat \<Rightarrow> xdp_buff" where
  "demo_buff n = \<lparr>xdp_data = replicate n 0xAB, rxq_dev = 1, rxq_queue_index = 0\<rparr>"

text \<open>The same state with the tx ring of socket 3 removed.\<close>

definition demo_state_no_tx :: kstate where
  "demo_state_no_tx = set_xsk 3 (demo_sock\<lparr>tx := None\<rparr>) demo_state"

text \<open>An environment in which every allocation and every device submission succeeds.\<close>

definition demo_env :: "nat \<Rightarrow> xmit_env" where
  "demo_env = (\<lambda>_. \<lparr>alloc_skb_ok = True, store_bits_err = 0, xmit_ret = 0\<rparr>)"

definition demo_sockopt_env :: sockopt_env where
  "demo_sockopt_env = \<lparr>queue_alloc_ok = True, umem_pin_ok = True, umem_new = 1\<rparr>"

text \<open>Does the ring that a ring-creation option names exist already?\<close>

definition ring_created :: "kstate \<Rightarrow> nat \<Rightarrow> optname \<Rightarrow> bool" where
  "ring_created s sk opt =
    (case opt of
       XDP_RX_RING \<Rightarrow> rx (xsks s sk) \<noteq> None
     | XDP_TX_RING \<Rightarrow> tx (xsks s sk) \<noteq> None
     | XDP_UMEM_FILL_RING \<Rightarrow>
         (case umem (xsks s sk) of None \<Rightarrow> False | Some up \<Rightarrow> fq (umems s up) \<noteq> None)
     | XDP_UMEM_COMPLETION_RING \<Rightarrow>
         (case umem (xsks s sk) of None \<Rightarrow> False | Some up \<Rightarrow> cq (umems s up) \<noteq> None)
     | _ \<Rightarrow> False)"

text \<open>
  The demo state after the fresh socket 4 got an rx ring, and the addresses used to bind:
  to \<open>(lo, 0)\<close> with \<open>SHARED_UMEM\<close> and the handle \<open>fd\<close>, and the same for an interface
  index that names no device.
\<close>

definition demo_state_ring4 :: kstate where
  "demo_state_ring4 = set_xsk 4 (null_sock\<lparr>sk_family := PF_XDP, rx := Some demo_rx\<rparr>) demo_state"

definition demo_addr :: "u32 \<Rightarrow> sockaddr_xdp" where
  "demo_addr fd = \<lparr>sxdp_family = AF_XDP, sxdp_flags = XDP_SHARED_UMEM, sxdp_ifindex = 1,
                   sxdp_queue_id = 0, sxdp_shared_umem_fd = fd\<rparr>"

definition demo_addr_nodev :: "u32 \<Rightarrow> sockaddr_xdp" where
  "demo_addr_nodev fd = (demo_addr fd)\<lparr>sxdp_ifindex := 9\<rparr>"

text \<open>The states after one, two and three deliveries of a 64-byte buffer to socket 3.\<close>

definition demo_rcv1 :: kstate where
  "demo_rcv1 = snd (the (xsk_rcv demo_state 3 (demo_buff 64)))"

definition demo_rcv2 :: kstate where
  "demo_rcv2 = snd (the (xsk_rcv demo_rcv1 3 (demo_buff 64)))"

definition demo_rcv3 :: kstate where
  "demo_rcv3 = snd (the (xsk_rcv demo_rcv2 3 (demo_buff 64)))"

text \<open>The rx ring of the demo state after one and after two descriptors were written.\<close>

definition demo_rx1 :: "xdp_desc xsk_queue" where
  "demo_rx1 = demo_rx\<lparr>ring_slots := (ring_slots demo_rx)(0 := \<lparr>idx = 0, len = 64, offset = 0\<rparr>),
                      prod_head := 1\<rparr>"

definition demo_rx2 :: "xdp_desc xsk_queue" where
  "demo_rx2 = demo_rx1\<lparr>ring_slots := (ring_slots demo_rx1)(1 := \<lparr>idx = 1, len = 64, offset = 0\<rparr>),
                      prod_head := 2\<rparr>"

section \<open>The reservation invariant of the completion ring\<close>

text \<open>
  \<open>cq_ok c k\<close>: on the completion ring \<open>c\<close> the published entries and the reserved
  slots together fit the capacity, and at least \<open>k\<close> slots are reserved and not yet
  published.
\<close>

definition cq_ok :: "u32 xsk_queue \<Rightarrow> nat \<Rightarrow> bool" where
  "cq_ok c k \<longleftrightarrow>
     unat (producer c - consumer c) + unat (prod_head c - producer c) \<le> unat (nentries c) \<and>
     k \<le> unat (prod_head c - producer c)"

text \<open>The transmit buffers in flight that will complete on the completion ring of umem \<open>up\<close>.\<close>

definition pending :: "kstate \<Rightarrow> nat \<Rightarrow> nat" where
  "pending s up = length (filter (\<lambda>skb. umem (xsks s (skb_sk skb)) = Some up) (inflight s))"

text \<open>
  \<open>tx_inv\<close>: every buffer in flight belongs to a socket with a umem, and every umem's
  completion ring holds a reserved slot for each buffer in flight towards it.
\<close>

definition tx_inv :: "kstate \<Rightarrow> bool" where
  "tx_inv s \<longleftrightarrow>
     (\<forall>up. case cq (umems s up) of
             None \<Rightarrow> pending s up = 0
           | Some c \<Rightarrow> cq_ok c (pending s up)) \<and>
     (\<forall>skb \<in> set (inflight s). umem (xsks s (skb_sk skb)) \<noteq> None)"

text \<open>User space takes one entry off a completion ring (the consumer counter advances).\<close>

definition user_consume_cq :: "kstate \<Rightarrow> nat \<Rightarrow> kstate" where
  "user_consume_cq s up =
    (case cq (umems s up) of None \<Rightarrow> s
     | Some c \<Rightarrow>
         if xskq_nb_avail c = 0 then s
         else set_cq up (c\<lparr>consumer := consumer c + 1\<rparr>) s)"

text \<open>
  Scenario E3: the demo state with the descriptors \<open>{0, 64, 0}\<close> and \<open>{1, 100, 0}\<close> on
  the tx ring of socket 3, and the states after the \<open>sendmsg\<close> and after the destructor
  ran for the first and for the second buffer in flight.
\<close>

definition demo_tx2 :: "xdp_desc xsk_queue" where
  "demo_tx2 = demo_tx
     \<lparr>prod_head := 2, producer := 2,
      ring_slots := (\<lambda>_. zero_desc)(0 := \<lparr>idx = 0, len = 64, offset = 0\<rparr>,
                                      1 := \<lparr>idx = 1, len = 100, offset = 0\<rparr>)\<rparr>"

definition demo_state_tx2 :: kstate where
  "demo_state_tx2 = set_tx 3 demo_tx2 demo_state"

definition demo_sent :: kstate where
  "demo_sent = snd (the (xsk_sendmsg demo_state_tx2 3 MSG_DONTWAIT demo_env))"

text \<open>The two transmit buffers of scenario E3: frame \<open>i\<close>, \<open>n\<close> bytes.\<close>

definition demo_skb :: "u32 \<Rightarrow> nat \<Rightarrow> sk_buff" where
  "demo_skb i n =
    \<lparr>skb_sk = 3, skb_dev = 1, skb_priority = 0, skb_mark = 0,
     skb_data = memread (\<lambda>_. 0) (xdp_umem_get_data demo_umem i) n,
     destructor_arg = i\<rparr>"

definition demo_done1 :: kstate where
  "demo_done1 = the (xsk_destruct_skb demo_sent (demo_skb 0 64))"

definition demo_done2 :: kstate where
  "demo_done2 = the (xsk_destruct_skb demo_done1 (demo_skb 1 100))"

section \<open>Properties\<close>

lemmas errno_defs =
  ENXIO_def EBADF_def EAGAIN_def ENOMEM_def EFAULT_def EBUSY_def ENODEV_def EINVAL_def
  ENOSPC_def ENOTSOCK_def EMSGSIZE_def ENOPROTOOPT_def EOPNOTSUPP_def ENETDOWN_def
  ENOBUFS_def

subsection \<open>The sample program: \<open>xq_enq_tx_only\<close>\<close>

lemma xq_loop_cached_prod:
  "cached_prod (xq_enq_tx_only_loop n i uq) = cached_prod uq + of_nat n"
  by (induction n arbitrary: i uq) (simp_all add: xq_enq_tx_only_body_def Let_def)

lemma xq_loop_uq_mask:
  "uq_mask (xq_enq_tx_only_loop n i uq) = uq_mask uq"
  by (induction n arbitrary: i uq) (simp_all add: xq_enq_tx_only_body_def Let_def)

lemma xq_loop_untouched:
  "\<forall>j<n. (cached_prod uq + of_nat j) AND uq_mask uq \<noteq> s \<Longrightarrow>
   desc (uq_ring (xq_enq_tx_only_loop n i uq)) s = desc (uq_ring uq) s"
proof (induction n arbitrary: i uq)
  case 0
  then show ?case by simp
next
  case (Suc n)
  let ?b = "xq_enq_tx_only_body uq i"
  have cp: "cached_prod ?b = cached_prod uq + 1" and m: "uq_mask ?b = uq_mask uq"
    by (simp_all add: xq_enq_tx_only_body_def Let_def)
  have "\<forall>j<n. (cached_prod ?b + of_nat j) AND uq_mask ?b \<noteq> s"
  proof (intro allI impI)
    fix j assume "j < n"
    then have "Suc j < Suc n" by simp
    then have "(cached_prod uq + of_nat (Suc j)) AND uq_mask uq \<noteq> s"
      by (rule Suc.prems [THEN spec, THEN mp])
    then show "(cached_prod ?b + of_nat j) AND uq_mask ?b \<noteq> s"
      by (simp add: cp m ac_simps)
  qed
  then have "desc (uq_ring (xq_enq_tx_only_loop n (i + 1) ?b)) s = desc (uq_ring ?b) s"
    by (rule Suc.IH)
  moreover have "cached_prod uq AND uq_mask uq \<noteq> s"
    using Suc.prems [THEN spec, of 0] by simp
  then have "desc (uq_ring ?b) s = desc (uq_ring uq) s"
    by (simp add: xq_enq_tx_only_body_def Let_def)
  ultimately show ?case by simp
qed

lemma xq_loop_written:
  "inj_on (\<lambda>j. (cached_prod uq + of_nat j) AND uq_mask uq) {..<n} \<Longrightarrow> j < n \<Longrightarrow>
   desc (uq_ring (xq_enq_tx_only_loop n i uq)) ((cached_prod uq + of_nat j) AND uq_mask uq) =
     \<lparr>idx = ((cached_prod uq + of_nat j) AND uq_mask uq) + (i + of_nat j),
      len = of_nat (sizeof_pkt_data - 1), offset = 0\<rparr>"
proof (induction n arbitrary: i uq j)
  case 0
  then show ?case by simp
next
  case (Suc n)
  let ?b = "xq_enq_tx_only_body uq i"
  let ?slot = "\<lambda>j. (cached_prod uq + of_nat j) AND uq_mask uq"
  have cp: "cached_prod ?b = cached_prod uq + 1" and m: "uq_mask ?b = uq_mask uq"
    by (simp_all add: xq_enq_tx_only_body_def Let_def)
  have shift: "(cached_prod ?b + of_nat k) AND uq_mask ?b = ?slot (Suc k)" for k
    by (simp add: cp m ac_simps)
  show ?case
  proof (cases j)
    case 0
    have "\<forall>k<n. (cached_prod ?b + of_nat k) AND uq_mask ?b \<noteq> ?slot 0"
    proof (intro allI impI)
      fix k assume "k < n"
      then have "Suc k \<in> {..<Suc n}" and "0 \<in> {..<Suc n}" by simp_all
      then have "?slot (Suc k) = ?slot 0 \<Longrightarrow> Suc k = 0"
        using Suc.prems(1) by (rule_tac inj_onD)
      then have "?slot (Suc k) \<noteq> ?slot 0" by blast
      then show "(cached_prod ?b + of_nat k) AND uq_mask ?b \<noteq> ?slot 0"
        unfolding shift .
    qed
    then have "desc (uq_ring (xq_enq_tx_only_loop n (i + 1) ?b)) (?slot 0) = desc (uq_ring ?b) (?slot 0)"
      by (rule xq_loop_untouched)
    also have "\<dots> = \<lparr>idx = ?slot 0 + i, len = of_nat (sizeof_pkt_data - 1), offset = 0\<rparr>"
      by (simp add: xq_enq_tx_only_body_def Let_def)
    finally show ?thesis using 0 by simp
  next
    case (Suc k)
    then have k: "k < n" using Suc.prems(2) by simp
    have inj: "inj_on (\<lambda>j. (cached_prod ?b + of_nat j) AND uq_mask ?b) {..<n}"
      unfolding inj_on_def
    proof (intro ballI impI)
      fix x y assume "x \<in> {..<n}" "y \<in> {..<n}"
        and "(cached_prod ?b + of_nat x) AND uq_mask ?b = (cached_prod ?b + of_nat y) AND uq_mask ?b"
      then have "?slot (Suc x) = ?slot (Suc y)" "Suc x \<in> {..<Suc n}" "Suc y \<in> {..<Suc n}"
        using shift [of x] shift [of y] by simp_all
      then have "Suc x = Suc y" by (rule inj_onD [OF Suc.prems(1)])
      then show "x = y" by simp
    qed
    have "desc (uq_ring (xq_enq_tx_only_loop n (i + 1) ?b)) (?slot (Suc k)) =
       \<lparr>idx = ?slot (Suc k) + (i + 1 + of_nat k),
        len = of_nat (sizeof_pkt_data - 1), offset = 0\<rparr>"
      using Suc.IH [OF inj k] unfolding shift .
    then show ?thesis using Suc by (simp add: ac_simps)
  qed
qed

text \<open>
  C10. When \<open>xq_enq_tx_only(uq, idx, ndescs)\<close> finds \<open>ndescs\<close> free slots (and the
  slots it fills are distinct, as they are on a ring with \<open>ndescs \<le> mask + 1\<close>), it
  returns 0 and the resulting queue is the same whatever \<open>idx\<close> the caller passed: the
  parameter is hidden by the loop's own \<open>idx\<close>. The \<open>j\<close>-th descriptor enqueued, in slot
  \<open>(cached_prod + j) AND mask\<close>, has offset 0, length \<open>sizeof(pkt_data) - 1 = 60\<close> and
  the index field \<open>slot + j\<close>.
\<close>

theorem xq_enq_tx_only_shadows_idx:
  assumes free: "ndescs \<le> fst (xq_nb_free uq ndescs)"
    and slots: "inj_on (\<lambda>j. (cached_prod uq + of_nat j) AND uq_mask uq) {..<unat ndescs}"
  shows "\<exists>uq'. (\<forall>idx_arg. xq_enq_tx_only uq idx_arg ndescs = (0, uq')) \<and>
            (\<forall>j<unat ndescs.
               desc (uq_ring uq') ((cached_prod uq + of_nat j) AND uq_mask uq) =
                 \<lparr>idx = ((cached_prod uq + of_nat j) AND uq_mask uq) + of_nat j,
                  len = of_nat (sizeof_pkt_data - 1), offset = 0\<rparr>) \<and>
            sizeof_pkt_data - 1 = 60"
proof -
  obtain f uq0 where nb: "xq_nb_free uq ndescs = (f, uq0)" by (cases "xq_nb_free uq ndescs")
  have uq0: "cached_prod uq0 = cached_prod uq" "uq_mask uq0 = uq_mask uq"
    using nb by (auto simp: xq_nb_free_def Let_def split: if_splits)
  have f: "\<not> f < ndescs" using free nb by simp
  define uq1 where "uq1 = xq_enq_tx_only_loop (unat ndescs) 0 uq0"
  define uq' where "uq' = uq1\<lparr>uq_ring := (uq_ring uq1)\<lparr>ptrs_producer := cached_prod uq1\<rparr>\<rparr>"
  have 1: "\<forall>idx_arg. xq_enq_tx_only uq idx_arg ndescs = (0, uq')"
    using nb f by (simp add: xq_enq_tx_only_def Let_def uq'_def uq1_def)
  have inj0: "inj_on (\<lambda>j. (cached_prod uq0 + of_nat j) AND uq_mask uq0) {..<unat ndescs}"
    using slots by (simp only: uq0)
  have "desc (uq_ring uq1) ((cached_prod uq0 + of_nat j) AND uq_mask uq0) =
          \<lparr>idx = ((cached_prod uq0 + of_nat j) AND uq_mask uq0) + (0 + of_nat j),
           len = of_nat (sizeof_pkt_data - 1), offset = 0\<rparr>" if "j < unat ndescs" for j
    unfolding uq1_def using inj0 that by (rule xq_loop_written)
  then have 2: "\<forall>j<unat ndescs.
               desc (uq_ring uq') ((cached_prod uq + of_nat j) AND uq_mask uq) =
                 \<lparr>idx = ((cached_prod uq + of_nat j) AND uq_mask uq) + of_nat j,
                  len = of_nat (sizeof_pkt_data - 1), offset = 0\<rparr>"
    by (simp add: uq0 uq'_def)
  have 3: "sizeof_pkt_data - 1 = 60" by (simp add: sizeof_pkt_data_def pkt_data_def)
  show ?thesis
    by (rule exI [of _ uq']) (intro conjI 1 2 3)
qed

theorem xq_enq_tx_only_shadows_idx_witness:
  "(2::u32) \<le> fst (xq_nb_free w_uq 2) \<and>
   xq_enq_tx_only w_uq 7 2 = xq_enq_tx_only w_uq 0 2 \<and>
   fst (xq_enq_tx_only w_uq 7 2) = 0 \<and>
   idx (desc (uq_ring (snd (xq_enq_tx_only w_uq 7 2))) 0) = 0 \<and>
   idx (desc (uq_ring (snd (xq_enq_tx_only w_uq 7 2))) 1) = 2"
proof -
  have free: "(2::u32) \<le> fst (xq_nb_free w_uq 2)"
    by (simp add: xq_nb_free_def w_uq_def Let_def)
  have slots: "inj_on (\<lambda>j. (cached_prod w_uq + of_nat j) AND uq_mask w_uq) {..<unat (2::u32)}"
  proof -
    have u: "unat (2::u32) = 2" by simp
    have set2: "{..<(2::nat)} = {0, 1}" by auto
    show ?thesis unfolding u set2 by (simp add: w_uq_def)
  qed
  from xq_enq_tx_only_shadows_idx [OF free slots]
  obtain uq' where all: "\<forall>idx_arg. xq_enq_tx_only w_uq idx_arg 2 = (0, uq')"
    and written: "\<forall>j<unat (2::u32).
               desc (uq_ring uq') ((cached_prod w_uq + of_nat j) AND uq_mask w_uq) =
                 \<lparr>idx = ((cached_prod w_uq + of_nat j) AND uq_mask w_uq) + of_nat j,
                  len = of_nat (sizeof_pkt_data - 1), offset = 0\<rparr>"
    by blast
  have a7: "xq_enq_tx_only w_uq 7 2 = (0, uq')" and a0: "xq_enq_tx_only w_uq 0 2 = (0, uq')"
    using all by simp_all
  have d0: "idx (desc (uq_ring uq') 0) = 0"
    using written [THEN spec, of 0] by (simp add: w_uq_def)
  have d1: "idx (desc (uq_ring uq') 1) = 2"
    using written [THEN spec, of 1] by (simp add: w_uq_def)
  show ?thesis
    using free d0 d1 by (simp add: a7 a0)
qed

subsection \<open>Helper facts\<close>

lemma set_xsk_same [simp]: "set_xsk xs (xsks s xs) s = s"
  by (simp add: set_xsk_def)

lemma set_umem_same [simp]: "set_umem up (umems s up) s = s"
  by (simp add: set_umem_def)

lemmas demo_defs =
  demo_state_def demo_sock_def demo_umem_def demo_fq_def demo_cq_def demo_rx_def demo_tx_def
  demo_props_def null_sock_def null_umem_def xskq_create_def zero_desc_def

subsection \<open>Release\<close>

text \<open>
  C8. \<open>xsk_release\<close> always returns 0, and a second release returns 0 and leaves the
  state as it is; on an already-released socket (\<open>sock->sk\<close> is \<open>NULL\<close>) nothing changes.
  The first release of a bound socket calls \<open>synchronize_net\<close> (the quiesce) before
  \<open>dev_put\<close>, and clears the socket's device.
\<close>

theorem xsk_release_idempotent:
  "\<exists>s'. xsk_release s sock = Some (0, s') \<and>
        xsk_release s' sock = Some (0, s') \<and>
        (socket_sk s sock = None \<longrightarrow> s' = s) \<and>
        (\<forall>sk dv. socket_sk s sock = Some sk \<and> dev (xsks s sk) = Some dv \<longrightarrow>
           dev (xsks s' sk) = None \<and>
           trace s' = trace s @ [Sock_prot_inuse_add (- 1), Synchronize_net, Dev_put dv,
                                 Sock_orphan sk, Sock_put sk])"
proof (cases "socket_sk s sock")
  case None
  then show ?thesis by (simp add: xsk_release_def)
next
  case (Some sk)
  show ?thesis
  proof (cases "dev (xsks s sk)")
    case None
    with Some show ?thesis
      by (simp add: xsk_release_def Let_def log_event_def)
  next
    case (Some dv)
    with \<open>socket_sk s sock = Some sk\<close> show ?thesis
      by (simp add: xsk_release_def u_xsk_release_def Let_def log_event_def set_xsk_def)
  qed
qed

theorem xsk_release_idempotent_witness:
  "socket_sk demo_state 3 = Some 3 \<and> dev (xsks demo_state 3) = Some 1 \<and>
   (\<exists>s'. xsk_release demo_state 3 = Some (0, s') \<and>
         xsk_release s' 3 = Some (0, s') \<and>
         dev (xsks s' 3) = None \<and>
         trace s' = [Sock_prot_inuse_add (- 1), Synchronize_net, Dev_put 1,
                     Sock_orphan 3, Sock_put 3])"
proof -
  have sk: "socket_sk demo_state 3 = Some 3" and dv: "dev (xsks demo_state 3) = Some 1"
    and tr: "trace demo_state = []"
    by (simp_all add: demo_state_def demo_sock_def)
  from xsk_release_idempotent [of demo_state 3]
  obtain s' where r1: "xsk_release demo_state 3 = Some (0, s')"
    and r2: "xsk_release s' 3 = Some (0, s')"
    and r3: "\<forall>sk dv. socket_sk demo_state 3 = Some sk \<and> dev (xsks demo_state sk) = Some dv \<longrightarrow>
           dev (xsks s' sk) = None \<and>
           trace s' = trace demo_state @ [Sock_prot_inuse_add (- 1), Synchronize_net, Dev_put dv,
                                 Sock_orphan sk, Sock_put sk]"
    by blast
  from r3 [THEN spec, THEN spec, THEN mp, OF conjI [OF sk dv]]
  have "dev (xsks s' 3) = None \<and>
        trace s' = [Sock_prot_inuse_add (- 1), Synchronize_net, Dev_put 1, Sock_orphan 3, Sock_put 3]"
    by (simp add: tr)
  with r1 r2 sk dv show ?thesis by blast
qed

subsection \<open>Sendmsg without a tx ring\<close>

text \<open>
  C4, as the code has it. \<open>xsk_sendmsg\<close> tests the device first and calls
  \<open>xsk_generic_xmit\<close>, which tests the tx ring, last: on a socket without tx ring the
  call fails with \<open>ENXIO\<close> when the socket is unbound, with \<open>ENETDOWN\<close> when its device
  is down, and with \<open>ENOBUFS\<close> otherwise.
\<close>

theorem xsk_sendmsg_no_tx_ring:
  assumes "socket_sk s sock = Some sk" and "tx (xsks s sk) = None"
  shows "xsk_sendmsg s sock msg_flags env =
          (case dev (xsks s sk) of
             None \<Rightarrow> Some (- ENXIO, s)
           | Some dv \<Rightarrow>
               if dev_flags (netdevs s dv) AND IFF_UP = 0 then Some (- ENETDOWN, s)
               else Some (- ENOBUFS, s))"
  using assms by (simp add: xsk_sendmsg_def xsk_generic_xmit_def split: option.splits)

theorem xsk_sendmsg_no_tx_ring_witness:
  "socket_sk demo_state_no_tx 3 = Some 3 \<and> tx (xsks demo_state_no_tx 3) = None \<and>
   xsk_sendmsg demo_state_no_tx 3 MSG_DONTWAIT demo_env = Some (- ENOBUFS, demo_state_no_tx)"
proof -
  have sk: "socket_sk demo_state_no_tx 3 = Some 3" and tx: "tx (xsks demo_state_no_tx 3) = None"
    by (simp_all add: demo_state_no_tx_def demo_state_def set_xsk_def)
  have dv: "dev (xsks demo_state_no_tx 3) = Some 1"
    and up: "dev_flags (netdevs demo_state_no_tx 1) AND IFF_UP \<noteq> 0"
    by (simp_all add: demo_state_no_tx_def demo_state_def demo_sock_def set_xsk_def IFF_UP_def)
  show ?thesis
    using xsk_sendmsg_no_tx_ring [OF sk tx, of MSG_DONTWAIT demo_env] sk tx dv up by simp
qed

text \<open>
  The claim as written (no tx ring gives \<open>ENOBUFS\<close>, before and regardless of the device
  checks) fails on the fresh socket 4, which has neither tx ring nor
  device: the call returns \<open>ENXIO\<close>.
\<close>

theorem xsk_sendmsg_no_tx_ring_counterexample:
  "socket_sk demo_state 4 = Some 4 \<and> tx (xsks demo_state 4) = None \<and>
   xsk_sendmsg demo_state 4 MSG_DONTWAIT demo_env = Some (- ENXIO, demo_state) \<and>
   - ENXIO \<noteq> - ENOBUFS"
  by (simp add: xsk_sendmsg_def demo_state_def null_sock_def ENXIO_def ENOBUFS_def)

subsection \<open>Ring creation\<close>

lemma nat_and_pred_zero:
  fixes n :: nat
  shows "n \<noteq> 0 \<Longrightarrow> n AND (n - 1) = 0 \<Longrightarrow> \<exists>k. n = 2 ^ k"
proof (induction n rule: less_induct)
  case (less n)
  show ?case
  proof (cases "even n")
    case True
    then obtain m where m: "n = 2 * m" by (elim evenE)
    with less.prems have m0: "m \<noteq> 0" by simp
    have pred: "(n - 1) div 2 = m - 1" using m m0 by (cases m) simp_all
    have "n AND (n - 1) = 2 * (m AND (m - 1))"
      using and_nat_rec [of n "n - 1"] True pred m by simp
    with less.prems have "m AND (m - 1) = 0" by simp
    moreover have "m < n" using m m0 by simp
    ultimately obtain k where "m = 2 ^ k" using less.IH m0 by blast
    then have "n = 2 ^ Suc k" using m by simp
    then show ?thesis by blast
  next
    case False
    then obtain m where m: "n = 2 * m + 1" by (elim oddE)
    have "n AND (n - 1) = 2 * (m AND m)"
      using and_nat_rec [of n "n - 1"] m by simp
    with less.prems have "m = 0" by simp
    then have "n = 2 ^ 0" using m by simp
    then show ?thesis by blast
  qed
qed

lemma nat_pow2_and_pred:
  fixes k :: nat
  shows "(2::nat) ^ k AND (2 ^ k - 1) = 0"
proof -
  have "(2::nat) ^ k AND mask k = 0"
    by (simp add: take_bit_eq_mask [symmetric] take_bit_eq_mod)
  then show ?thesis by (simp add: mask_eq_exp_minus_1)
qed

lemma unat_ucast_u32_u64: "unat (ucast (n::u32) :: u64) = unat n"
  by transfer simp

text \<open>The bit test of \<open>is_power_of_2\<close> holds exactly of the powers of two.\<close>

lemma is_power_of_2_iff:
  "is_power_of_2 (ucast (n::u32)) \<longleftrightarrow> (\<exists>k. unat n = 2 ^ k)"
proof -
  let ?x = "ucast n :: u64"
  have ux: "unat ?x = unat n" by (rule unat_ucast_u32_u64)
  have x0: "?x = 0 \<longleftrightarrow> unat n = 0"
    using unat_eq_0 [of ?x] by (simp only: ux)
  have pred: "unat (?x - 1) = unat n - 1" if "unat n \<noteq> 0"
    using that x0 ux by (simp add: unat_minus_one)
  have and0: "?x AND (?x - 1) = 0 \<longleftrightarrow> unat n AND (unat n - 1) = 0" if "unat n \<noteq> 0"
  proof -
    have "unat (?x AND (?x - 1)) = unat ?x AND unat (?x - 1)" by (simp add: unsigned_and_eq)
    then have "unat (?x AND (?x - 1)) = unat n AND (unat n - 1)" using pred [OF that] ux by simp
    then show ?thesis using unat_eq_0 [of "?x AND (?x - 1)"] by simp
  qed
  show ?thesis
  proof
    assume "is_power_of_2 ?x"
    then have "unat n \<noteq> 0" "unat n AND (unat n - 1) = 0"
      using x0 and0 by (auto simp: is_power_of_2_def)
    then show "\<exists>k. unat n = 2 ^ k" by (rule nat_and_pred_zero)
  next
    assume "\<exists>k. unat n = 2 ^ k"
    then obtain k where k: "unat n = 2 ^ k" by blast
    then have n0: "unat n \<noteq> 0" by simp
    have "unat n AND (unat n - 1) = 0" using k nat_pow2_and_pred by simp
    then show "is_power_of_2 ?x" using n0 x0 and0 by (simp add: is_power_of_2_def)
  qed
qed

lemma xsk_init_queue_rejects:
  "entries = 0 \<or> (\<forall>k. unat entries \<noteq> 2 ^ k) \<or> queue \<noteq> None \<Longrightarrow>
   xsk_init_queue z a entries queue = (- EINVAL, queue)"
  by (auto simp: xsk_init_queue_def is_power_of_2_iff)

text \<open>
  C7. A ring-creation \<open>setsockopt\<close> (level \<open>SOL_XDP\<close>; \<open>RX_RING\<close>, \<open>TX_RING\<close>,
  \<open>FILL_RING\<close> or \<open>COMPLETION_RING\<close>) whose requested capacity \<open>n\<close> is zero or not a
  power of two, or whose ring exists already, returns \<open>EINVAL\<close> and leaves the state as
  it is; so do \<open>FILL_RING\<close> and \<open>COMPLETION_RING\<close> on a socket without umem, whatever
  the capacity.
\<close>

theorem xsk_setsockopt_ring_rejects:
  assumes live: "socket_sk s sock = Some sk"
    and opt: "opt \<in> {XDP_RX_RING, XDP_TX_RING, XDP_UMEM_FILL_RING, XDP_UMEM_COMPLETION_RING}"
  shows "(optval_entries optval = Some n \<and>
          (n = 0 \<or> (\<forall>k. unat n \<noteq> 2 ^ k) \<or> ring_created s sk opt) \<longrightarrow>
            xsk_setsockopt s sock SOL_XDP opt optval optlen e = Some (- EINVAL, s)) \<and>
         (opt \<in> {XDP_UMEM_FILL_RING, XDP_UMEM_COMPLETION_RING} \<and> umem (xsks s sk) = None \<longrightarrow>
            xsk_setsockopt s sock SOL_XDP opt optval optlen e = Some (- EINVAL, s))"
proof (intro conjI impI)
  assume a: "optval_entries optval = Some n \<and>
          (n = 0 \<or> (\<forall>k. unat n \<noteq> 2 ^ k) \<or> ring_created s sk opt)"
  consider (rx) "opt = XDP_RX_RING" | (tx) "opt = XDP_TX_RING"
    | (fill) "opt = XDP_UMEM_FILL_RING" | (comp) "opt = XDP_UMEM_COMPLETION_RING"
    using opt by blast
  then show "xsk_setsockopt s sock SOL_XDP opt optval optlen e = Some (- EINVAL, s)"
  proof cases
    case rx
    then have "n = 0 \<or> (\<forall>k. unat n \<noteq> 2 ^ k) \<or> rx (xsks s sk) \<noteq> None"
      using a by (simp add: ring_created_def)
    then have "xsk_init_queue zero_desc (queue_alloc_ok e) n (rx (xsks s sk)) = (- EINVAL, rx (xsks s sk))"
      by (rule xsk_init_queue_rejects)
    then show ?thesis using rx a live
      by (simp add: xsk_setsockopt_def Let_def)
  next
    case tx
    then have "n = 0 \<or> (\<forall>k. unat n \<noteq> 2 ^ k) \<or> tx (xsks s sk) \<noteq> None"
      using a by (simp add: ring_created_def)
    then have "xsk_init_queue zero_desc (queue_alloc_ok e) n (tx (xsks s sk)) = (- EINVAL, tx (xsks s sk))"
      by (rule xsk_init_queue_rejects)
    then show ?thesis using tx a live
      by (simp add: xsk_setsockopt_def Let_def)
  next
    case fill
    show ?thesis
    proof (cases "umem (xsks s sk)")
      case None
      then show ?thesis using fill live by (simp add: xsk_setsockopt_def)
    next
      case (Some up)
      then have "n = 0 \<or> (\<forall>k. unat n \<noteq> 2 ^ k) \<or> fq (umems s up) \<noteq> None"
        using a fill by (simp add: ring_created_def)
      then have "xsk_init_queue 0 (queue_alloc_ok e) n (fq (umems s up)) = (- EINVAL, fq (umems s up))"
        by (rule xsk_init_queue_rejects)
      then show ?thesis using fill a live Some
        by (simp add: xsk_setsockopt_def Let_def)
    qed
  next
    case comp
    show ?thesis
    proof (cases "umem (xsks s sk)")
      case None
      then show ?thesis using comp live by (simp add: xsk_setsockopt_def)
    next
      case (Some up)
      then have "n = 0 \<or> (\<forall>k. unat n \<noteq> 2 ^ k) \<or> cq (umems s up) \<noteq> None"
        using a comp by (simp add: ring_created_def)
      then have "xsk_init_queue 0 (queue_alloc_ok e) n (cq (umems s up)) = (- EINVAL, cq (umems s up))"
        by (rule xsk_init_queue_rejects)
      then show ?thesis using comp a live Some
        by (simp add: xsk_setsockopt_def Let_def)
    qed
  qed
next
  assume "opt \<in> {XDP_UMEM_FILL_RING, XDP_UMEM_COMPLETION_RING} \<and> umem (xsks s sk) = None"
  then show "xsk_setsockopt s sock SOL_XDP opt optval optlen e = Some (- EINVAL, s)"
    using live by (auto simp: xsk_setsockopt_def)
qed

text \<open>
  On the demo state: capacity 3 for the tx ring of the fresh socket 4, capacity 4 for the
  rx ring of socket 3 (which exists already), and a fill ring on socket 4 (which has no
  umem) are all refused with \<open>EINVAL\<close>, and nothing changes.
\<close>

theorem xsk_setsockopt_ring_rejects_witness:
  "xsk_setsockopt demo_state 4 SOL_XDP XDP_TX_RING
     \<lparr>optval_entries = Some 3, optval_mr = None\<rparr> 4 demo_sockopt_env = Some (- EINVAL, demo_state) \<and>
   xsk_setsockopt demo_state 3 SOL_XDP XDP_RX_RING
     \<lparr>optval_entries = Some 4, optval_mr = None\<rparr> 4 demo_sockopt_env = Some (- EINVAL, demo_state) \<and>
   xsk_setsockopt demo_state 4 SOL_XDP XDP_UMEM_FILL_RING
     \<lparr>optval_entries = Some 8, optval_mr = None\<rparr> 4 demo_sockopt_env = Some (- EINVAL, demo_state)"
proof -
  have sk4: "socket_sk demo_state 4 = Some 4" and sk3: "socket_sk demo_state 3 = Some 3"
    by (simp_all add: demo_state_def)
  have "\<not> is_power_of_2 (ucast (3::u32))" by (simp add: is_power_of_2_def)
  then have "\<not> (\<exists>k. unat (3::u32) = 2 ^ k)" unfolding is_power_of_2_iff .
  then have three: "\<forall>k. unat (3::u32) \<noteq> 2 ^ k" unfolding not_ex .
  have created: "ring_created demo_state 3 XDP_RX_RING"
    by (simp add: ring_created_def demo_state_def demo_sock_def)
  have noumem: "umem (xsks demo_state 4) = None"
    by (simp add: demo_state_def null_sock_def)
  have 1: "xsk_setsockopt demo_state 4 SOL_XDP XDP_TX_RING
     \<lparr>optval_entries = Some 3, optval_mr = None\<rparr> 4 demo_sockopt_env = Some (- EINVAL, demo_state)"
    using xsk_setsockopt_ring_rejects [OF sk4, of XDP_TX_RING _ 3] three by simp
  have 2: "xsk_setsockopt demo_state 3 SOL_XDP XDP_RX_RING
     \<lparr>optval_entries = Some 4, optval_mr = None\<rparr> 4 demo_sockopt_env = Some (- EINVAL, demo_state)"
    using xsk_setsockopt_ring_rejects [OF sk3, of XDP_RX_RING _ 4] created by simp
  have 3: "xsk_setsockopt demo_state 4 SOL_XDP XDP_UMEM_FILL_RING
     \<lparr>optval_entries = Some 8, optval_mr = None\<rparr> 4 demo_sockopt_env = Some (- EINVAL, demo_state)"
    using xsk_setsockopt_ring_rejects [OF sk4, of XDP_UMEM_FILL_RING] noumem by simp
  from 1 2 3 show ?thesis by (intro conjI)
qed

subsection \<open>Bind with a shared umem\<close>

text \<open>
  C9, as the code has it. A bind that carries \<open>SHARED_UMEM\<close> on a socket that has a umem
  of its own never succeeds and never looks the handle up: the result is \<open>EINVAL\<close> for a
  short address or a wrong family, \<open>ENODEV\<close> when the interface index names no device,
  and \<open>EINVAL\<close> otherwise; the only calls made are \<open>dev_get_by_index\<close> and the
  \<open>dev_put\<close> that undoes it.
\<close>

theorem xsk_bind_shared_own_umem:
  assumes live: "socket_sk s sock = Some sk"
    and own: "umem (xsks s sk) = Some up"
    and shared: "sxdp_flags sxdp AND XDP_SHARED_UMEM \<noteq> 0"
  shows "xsk_bind s sock sxdp addr_len =
          (if (word_of_int addr_len :: u64) < sizeof_sockaddr_xdp \<or> sxdp_family sxdp \<noteq> AF_XDP
           then Some (- EINVAL, s)
           else
             (case dev_by_index s (sxdp_ifindex sxdp) of
                None \<Rightarrow> Some (- ENODEV, s)
              | Some dv \<Rightarrow> Some (- EINVAL, log_event [Dev_hold dv, Dev_put dv] s)))"
  using assms
  by (simp add: xsk_bind_def xsk_bind_umem_def Let_def log_event_def EINVAL_def
           split: option.splits)

theorem xsk_bind_shared_own_umem_witness:
  "socket_sk demo_state 3 = Some 3 \<and> umem (xsks demo_state 3) = Some 0 \<and>
   sxdp_flags (demo_addr 6) AND XDP_SHARED_UMEM \<noteq> 0 \<and>
   xsk_bind demo_state 3 (demo_addr 6) 16 =
     Some (- EINVAL, log_event [Dev_hold 1, Dev_put 1] demo_state)"
proof -
  have live: "socket_sk demo_state 3 = Some 3" and own: "umem (xsks demo_state 3) = Some 0"
    by (simp_all add: demo_state_def demo_sock_def)
  have shared: "sxdp_flags (demo_addr 6) AND XDP_SHARED_UMEM \<noteq> 0"
    by (simp add: demo_addr_def XDP_SHARED_UMEM_def)
  have dv: "dev_by_index demo_state (sxdp_ifindex (demo_addr 6)) = Some 1"
    and fam: "sxdp_family (demo_addr 6) = AF_XDP"
    by (simp_all add: demo_state_def demo_addr_def)
  have len: "\<not> (word_of_int 16 :: u64) < sizeof_sockaddr_xdp"
    by (simp add: sizeof_sockaddr_xdp_def)
  show ?thesis
    using xsk_bind_shared_own_umem [OF live own shared, of 16] live own shared dv fam len
    by simp
qed

text \<open>
  The claim as written (such a bind fails with \<open>EINVAL\<close>) fails when the interface index
  names no device: the result is \<open>ENODEV\<close>.
\<close>

theorem xsk_bind_shared_own_umem_counterexample:
  "socket_sk demo_state 3 = Some 3 \<and> umem (xsks demo_state 3) = Some 0 \<and>
   sxdp_flags (demo_addr_nodev 6) AND XDP_SHARED_UMEM \<noteq> 0 \<and>
   xsk_bind demo_state 3 (demo_addr_nodev 6) 16 = Some (- ENODEV, demo_state) \<and>
   - ENODEV \<noteq> - EINVAL"
  by (simp add: xsk_bind_def demo_state_def demo_sock_def demo_addr_nodev_def demo_addr_def
        XDP_SHARED_UMEM_def sizeof_sockaddr_xdp_def ENODEV_def EINVAL_def)

text \<open>
  C5, as the code has it. Take a bind with \<open>SHARED_UMEM\<close> that reaches the handle
  lookup: the address is long enough and of this family, the device exists, the socket
  has an rx or a tx ring and no umem of its own, and the queue id is in range. Then a
  handle that is no socket gives \<open>ENOTSOCK\<close>; a socket of another family gives
  \<open>ENOPROTOOPT\<close>; a socket of this family without umem gives \<open>EBADF\<close>; one with a umem
  but bound to another device or queue gives \<open>EINVAL\<close>. In each case the references
  taken are dropped again and the sockets are as before.
\<close>

theorem xsk_bind_shared_handle_errors:
  assumes live: "socket_sk s sock = Some sk"
    and len: "\<not> (word_of_int addr_len :: u64) < sizeof_sockaddr_xdp"
    and fam: "sxdp_family sxdp = AF_XDP"
    and dv: "dev_by_index s (sxdp_ifindex sxdp) = Some dv"
    and rings: "rx (xsks s sk) \<noteq> None \<or> tx (xsks s sk) \<noteq> None"
    and queue: "sxdp_queue_id sxdp < num_rx_queues (netdevs s dv)"
    and shared: "sxdp_flags sxdp AND XDP_SHARED_UMEM \<noteq> 0"
    and noumem: "umem (xsks s sk) = None"
    and fd: "fd = sint (sxdp_shared_umem_fd sxdp)"
  shows "(fdtable s fd = None \<longrightarrow>
            xsk_bind s sock sxdp addr_len =
              Some (- ENOTSOCK, log_event [Dev_hold dv, Sockfd_lookup fd, Dev_put dv] s)) \<and>
         (\<forall>sock' sk'. fdtable s fd = Some sock' \<and> socket_sk s sock' = Some sk' \<longrightarrow>
            (sk_family (xsks s sk') \<noteq> PF_XDP \<longrightarrow>
               xsk_bind s sock sxdp addr_len =
                 Some (- ENOPROTOOPT,
                       log_event [Dev_hold dv, Sockfd_lookup fd, Sockfd_put sock', Dev_put dv] s)) \<and>
            (sk_family (xsks s sk') = PF_XDP \<and> umem (xsks s sk') = None \<longrightarrow>
               xsk_bind s sock sxdp addr_len =
                 Some (- EBADF,
                       log_event [Dev_hold dv, Sockfd_lookup fd, Sockfd_put sock', Dev_put dv] s)) \<and>
            (sk_family (xsks s sk') = PF_XDP \<and> umem (xsks s sk') \<noteq> None \<and>
               (dev (xsks s sk') \<noteq> Some dv \<or> queue_id (xsks s sk') \<noteq> sxdp_queue_id sxdp) \<longrightarrow>
               xsk_bind s sock sxdp addr_len =
                 Some (- EINVAL,
                       log_event [Dev_hold dv, Sockfd_lookup fd, Sockfd_put sock', Dev_put dv] s)))"
proof -
  have q: "\<not> num_rx_queues (netdevs s dv) \<le> sxdp_queue_id sxdp"
    using queue by simp
  have r: "(rx (xsks s sk) = None \<and> tx (xsks s sk) = None) = False"
    using rings by simp
  note pre = live len fam dv q shared noumem fd [symmetric]
  have 1: "fdtable s fd = None \<Longrightarrow>
            xsk_bind s sock sxdp addr_len =
              Some (- ENOTSOCK, log_event [Dev_hold dv, Sockfd_lookup fd, Dev_put dv] s)"
    using pre
    by (simp add: xsk_bind_def xsk_bind_umem_def xsk_lookup_xsk_from_fd_def Let_def
          log_event_def ENOTSOCK_def r)
  have 2: "xsk_bind s sock sxdp addr_len =
                 Some (- ENOPROTOOPT,
                       log_event [Dev_hold dv, Sockfd_lookup fd, Sockfd_put sock', Dev_put dv] s)"
    if "fdtable s fd = Some sock'" "socket_sk s sock' = Some sk'" "sk_family (xsks s sk') \<noteq> PF_XDP"
    for sock' sk'
    using pre that
    by (simp add: xsk_bind_def xsk_bind_umem_def xsk_lookup_xsk_from_fd_def Let_def
          log_event_def ENOPROTOOPT_def r)
  have 3: "xsk_bind s sock sxdp addr_len =
                 Some (- EBADF,
                       log_event [Dev_hold dv, Sockfd_lookup fd, Sockfd_put sock', Dev_put dv] s)"
    if "fdtable s fd = Some sock'" "socket_sk s sock' = Some sk'" "sk_family (xsks s sk') = PF_XDP"
      "umem (xsks s sk') = None"
    for sock' sk'
    using pre that
    by (simp add: xsk_bind_def xsk_bind_umem_def xsk_lookup_xsk_from_fd_def Let_def
          log_event_def EBADF_def r)
  have 4: "xsk_bind s sock sxdp addr_len =
                 Some (- EINVAL,
                       log_event [Dev_hold dv, Sockfd_lookup fd, Sockfd_put sock', Dev_put dv] s)"
    if "fdtable s fd = Some sock'" "socket_sk s sock' = Some sk'" "sk_family (xsks s sk') = PF_XDP"
      "umem (xsks s sk') \<noteq> None"
      "dev (xsks s sk') \<noteq> Some dv \<or> queue_id (xsks s sk') \<noteq> sxdp_queue_id sxdp"
    for sock' sk'
  proof -
    from that(4) obtain up where up: "umem (xsks s sk') = Some up" by blast
    show ?thesis
      using pre that(1,2,3,5) up
      by (simp add: xsk_bind_def xsk_bind_umem_def xsk_lookup_xsk_from_fd_def Let_def
            log_event_def EINVAL_def r)
  qed
  show ?thesis
    using 1 2 3 4 by blast
qed

lemma demo_state_ring4_facts:
  "socket_sk demo_state_ring4 4 = Some 4"
  "dev_by_index demo_state_ring4 1 = Some 1"
  "rx (xsks demo_state_ring4 4) \<noteq> None"
  "umem (xsks demo_state_ring4 4) = None"
  "num_rx_queues (netdevs demo_state_ring4 d) = 1"
  "fdtable demo_state_ring4 8 = Some 7" "socket_sk demo_state_ring4 7 = Some 7"
  "sk_family (xsks demo_state_ring4 7) = 2"
  "fdtable demo_state_ring4 6 = Some 4"
  "sk_family (xsks demo_state_ring4 4) = PF_XDP"
  by (simp_all add: demo_state_ring4_def demo_state_def set_xsk_def null_sock_def)

theorem xsk_bind_shared_handle_errors_witness:
  "xsk_bind demo_state_ring4 4 (demo_addr 8) 16 =
     Some (- ENOPROTOOPT,
           log_event [Dev_hold 1, Sockfd_lookup 8, Sockfd_put 7, Dev_put 1] demo_state_ring4) \<and>
   xsk_bind demo_state_ring4 4 (demo_addr 6) 16 =
     Some (- EBADF,
           log_event [Dev_hold 1, Sockfd_lookup 6, Sockfd_put 4, Dev_put 1] demo_state_ring4)"
proof -
  note f = demo_state_ring4_facts
  have len: "\<not> (word_of_int 16 :: u64) < sizeof_sockaddr_xdp"
    by (simp add: sizeof_sockaddr_xdp_def)
  have fam: "sxdp_family (demo_addr fd) = AF_XDP"
    and dv: "dev_by_index demo_state_ring4 (sxdp_ifindex (demo_addr fd)) = Some 1"
    and rings: "rx (xsks demo_state_ring4 4) \<noteq> None \<or> tx (xsks demo_state_ring4 4) \<noteq> None"
    and queue: "sxdp_queue_id (demo_addr fd) < num_rx_queues (netdevs demo_state_ring4 1)"
    and shared: "sxdp_flags (demo_addr fd) AND XDP_SHARED_UMEM \<noteq> 0" for fd
    by (simp_all add: demo_addr_def f XDP_SHARED_UMEM_def)
  have fd8: "8 = sint (sxdp_shared_umem_fd (demo_addr 8))"
    and fd6: "6 = sint (sxdp_shared_umem_fd (demo_addr 6))"
    by (simp_all add: demo_addr_def)
  have other: "sk_family (xsks demo_state_ring4 7) \<noteq> PF_XDP"
    by (simp add: f PF_XDP_def AF_XDP_def)
  from xsk_bind_shared_handle_errors
         [OF f(1) len fam dv rings queue shared f(4) fd8, THEN conjunct2, THEN spec, THEN spec,
          THEN mp, OF conjI [OF f(6) f(7)], THEN conjunct1, THEN mp, OF other]
  have 1: "xsk_bind demo_state_ring4 4 (demo_addr 8) 16 =
     Some (- ENOPROTOOPT,
           log_event [Dev_hold 1, Sockfd_lookup 8, Sockfd_put 7, Dev_put 1] demo_state_ring4)" .
  from xsk_bind_shared_handle_errors
         [OF f(1) len fam dv rings queue shared f(4) fd6, THEN conjunct2, THEN spec, THEN spec,
          THEN mp, OF conjI [OF f(9) f(1)], THEN conjunct2, THEN conjunct1, THEN mp,
          OF conjI [OF f(10) f(4)]]
  have 2: "xsk_bind demo_state_ring4 4 (demo_addr 6) 16 =
     Some (- EBADF,
           log_event [Dev_hold 1, Sockfd_lookup 6, Sockfd_put 4, Dev_put 1] demo_state_ring4)" .
  from 1 2 show ?thesis by (intro conjI)
qed

text \<open>
  The claim as written (a handle to a socket of another family gives \<open>EINVAL\<close>) fails on
  this state: descriptor 8 is socket 7, of family 2, and the bind returns \<open>ENOPROTOOPT\<close>.
\<close>

theorem xsk_bind_shared_handle_errors_counterexample:
  "fdtable demo_state_ring4 (sint (sxdp_shared_umem_fd (demo_addr 8))) = Some 7 \<and>
   socket_sk demo_state_ring4 7 = Some 7 \<and>
   sk_family (xsks demo_state_ring4 7) \<noteq> PF_XDP \<and>
   sxdp_flags (demo_addr 8) AND XDP_SHARED_UMEM \<noteq> 0 \<and>
   fst (the (xsk_bind demo_state_ring4 4 (demo_addr 8) 16)) = - ENOPROTOOPT \<and>
   - ENOPROTOOPT \<noteq> - EINVAL"
  by (simp add: xsk_bind_def xsk_bind_umem_def xsk_lookup_xsk_from_fd_def Let_def
        demo_state_ring4_facts demo_addr_def log_event_def sizeof_sockaddr_xdp_def
        XDP_SHARED_UMEM_def PF_XDP_def AF_XDP_def ENOPROTOOPT_def EINVAL_def)

subsection \<open>The receive path\<close>

lemmas set_defs = set_fq_def set_cq_def set_rx_def set_tx_def set_umem_def set_xsk_def log_event_def
  inc_rx_dropped_def

lemma xskq_validate_props:
  "xskq_validate valid n q = (r, q') \<Longrightarrow>
   umem_props q' = umem_props q \<and> nentries q' = nentries q \<and> ring_mask q' = ring_mask q \<and>
   prod_head q' = prod_head q \<and> producer q' = producer q \<and> ring_slots q' = ring_slots q"
proof (induction n arbitrary: q)
  case 0
  then show ?case by simp
next
  case (Suc n)
  show ?case
  proof (cases "valid q (ring_slots q (consumer q AND ring_mask q))")
    case True
    with Suc.prems show ?thesis by (simp add: Let_def)
  next
    case False
    with Suc.prems have
      "xskq_validate valid n (q\<lparr>consumer := consumer q + 1, invalid_descs := invalid_descs q + 1\<rparr>) = (r, q')"
      by (simp add: Let_def)
    from Suc.IH [OF this] show ?thesis by simp
  qed
qed

text \<open>
  The result of \<open>xsk_rcv\<close> on a bound socket whose fill ring gives the index \<open>i\<close>: the
  payload is copied whatever its length, and the outcome depends on the rx ring alone.
\<close>

lemma xsk_rcv_eq:
  assumes bound: "dev (xsks s xs) = Some (rxq_dev xdp)" "queue_id (xsks s xs) = rxq_queue_index xdp"
    and um: "umem (xsks s xs) = Some up"
    and fill: "fq (umems s up) = Some q"
    and peek: "xskq_peek_id q = (Some i, q')"
    and rxq: "rx (xsks s xs) = Some r"
  shows "xsk_rcv s xs xdp =
    (let l = (of_nat (length (xdp_data xdp)) :: u32);
         s2 = (set_fq up q' s)\<lparr>memory :=
                 memcpy (memory s) (xdp_umem_get_data_with_headroom (umems s up) i)
                   (take (unat l) (xdp_data xdp))\<rparr>
     in if xskq_nb_free r = 0 then Some (- ENOSPC, inc_rx_dropped xs s2)
        else Some (0, log_event [Xdp_return_buff]
                        (set_fq up (xskq_discard_id q')
                           (set_rx xs (snd (xskq_produce_batch_desc r i l (frame_headroom (umems s up)))) s2))))"
proof (cases "xskq_nb_free r = 0")
  case True
  have rr: "(xsks s xs)\<lparr>rx := Some r\<rparr> = xsks s xs"
    using rxq by simp
  show ?thesis
    using assms True
    by (simp add: rr xsk_rcv_def u_xsk_rcv_def Let_def xskq_produce_batch_desc_def set_defs
          xdp_umem_get_data_with_headroom_def xdp_umem_get_data_def ENOSPC_def)
next
  case False
  show ?thesis
    using assms False
    by (simp add: xsk_rcv_def u_xsk_rcv_def Let_def xskq_produce_batch_desc_def set_defs
          xdp_umem_get_data_with_headroom_def xdp_umem_get_data_def)
qed

lemma xskq_validate_pos:
  "0 < n \<Longrightarrow>
   xskq_validate valid n q =
    (let d = ring_slots q (consumer q AND ring_mask q) in
     if valid q d then (Some d, q)
     else xskq_validate valid (n - 1)
            (q\<lparr>consumer := consumer q + 1, invalid_descs := invalid_descs q + 1\<rparr>))"
  by (cases n) (simp_all add: Let_def)

text \<open>A peeked entry stays: peeking again gives the same entry and changes nothing.\<close>

lemma xskq_validate_again:
  "xskq_validate valid n q = (Some d, q') \<Longrightarrow> n = unat (xskq_nb_avail q) \<Longrightarrow>
   xskq_validate valid (unat (xskq_nb_avail q')) q' = (Some d, q')"
proof (induction n arbitrary: q)
  case 0
  then show ?case by simp
next
  case (Suc n)
  let ?q1 = "q\<lparr>consumer := consumer q + 1, invalid_descs := invalid_descs q + 1\<rparr>"
  show ?case
  proof (cases "valid q (ring_slots q (consumer q AND ring_mask q))")
    case True
    with Suc.prems(1) have "q' = q" by (simp add: Let_def)
    with Suc.prems show ?thesis by simp
  next
    case False
    with Suc.prems(1) have rec: "xskq_validate valid n ?q1 = (Some d, q')"
      by (simp add: Let_def)
    have ne: "xskq_nb_avail q \<noteq> 0"
      using Suc.prems(2) by (metis Zero_not_Suc unat_0)
    have "xskq_nb_avail ?q1 = xskq_nb_avail q - 1"
      by (simp add: xskq_nb_avail_def)
    then have "unat (xskq_nb_avail ?q1) = unat (xskq_nb_avail q) - 1"
      using ne by (simp add: unat_minus_one)
    then have "n = unat (xskq_nb_avail ?q1)" using Suc.prems(2) by simp
    with rec show ?thesis by (rule Suc.IH)
  qed
qed

lemma xskq_peek_id_again:
  "xskq_peek_id q = (Some i, q') \<Longrightarrow> xskq_peek_id q' = (Some i, q')"
  unfolding xskq_peek_id_def by (rule xskq_validate_again) simp_all

text \<open>
  C1, as the code has it. \<open>xsk_rcv\<close> never compares the length with the frame size. On a
  bound socket whose fill ring gives the index \<open>i\<close>, the whole payload is copied to
  \<open>data_with_headroom(i)\<close>, whatever its length; the buffer is dropped (\<open>ENOSPC\<close>,
  \<open>rx_dropped\<close> incremented, fill-ring entry kept) exactly when the rx ring has no free
  slot, and is delivered otherwise (result 0, \<open>rx_dropped\<close> unchanged, fill-ring entry
  consumed, descriptor \<open>{i, len, headroom}\<close> written to the rx ring).
\<close>

theorem xsk_rcv_no_length_check:
  assumes bound: "dev (xsks s xs) = Some (rxq_dev xdp)" "queue_id (xsks s xs) = rxq_queue_index xdp"
    and um: "umem (xsks s xs) = Some up"
    and fill: "fq (umems s up) = Some q"
    and peek: "xskq_peek_id q = (Some i, q')"
    and rxq: "rx (xsks s xs) = Some r"
  shows "\<exists>err s'. xsk_rcv s xs xdp = Some (err, s') \<and>
          memory s' = memcpy (memory s) (xdp_umem_get_data_with_headroom (umems s up) i)
                        (take (unat (of_nat (length (xdp_data xdp)) :: u32)) (xdp_data xdp)) \<and>
          (xskq_nb_free r = 0 \<longrightarrow>
             err = - ENOSPC \<and> rx_dropped (xsks s' xs) = rx_dropped (xsks s xs) + 1 \<and>
             fq (umems s' up) = Some q' \<and> rx (xsks s' xs) = Some r) \<and>
          (xskq_nb_free r \<noteq> 0 \<longrightarrow>
             err = 0 \<and> rx_dropped (xsks s' xs) = rx_dropped (xsks s xs) \<and>
             fq (umems s' up) = Some (xskq_discard_id q') \<and>
             rx (xsks s' xs) =
               Some (r\<lparr>ring_slots := (ring_slots r)(prod_head r AND ring_mask r :=
                          \<lparr>idx = i, len = of_nat (length (xdp_data xdp)),
                           offset = frame_headroom (umems s up)\<rparr>),
                        prod_head := prod_head r + 1\<rparr>))"
proof (cases "xskq_nb_free r = 0")
  case True
  then show ?thesis
    using rxq by (simp add: xsk_rcv_eq [OF assms] Let_def set_defs)
next
  case False
  then show ?thesis
    by (simp add: xsk_rcv_eq [OF assms] Let_def set_defs xskq_produce_batch_desc_def)
qed


lemma demo_state_rx_facts:
  "dev (xsks demo_state 3) = Some 1" "queue_id (xsks demo_state 3) = 0"
  "umem (xsks demo_state 3) = Some 0" "fq (umems demo_state 0) = Some demo_fq"
  "rx (xsks demo_state 3) = Some demo_rx" "rx_dropped (xsks demo_state 3) = 0"
  "frame_headroom (umems demo_state 0) = 0" "umem_addr (umems demo_state 0) = 0x100000"
  "frame_size (umems demo_state 0) = 2048" "memory demo_state = (\<lambda>_. 0)"
  by (simp_all add: demo_state_def demo_sock_def demo_umem_def)

lemma demo_buff_facts:
  "rxq_dev (demo_buff n) = 1" "rxq_queue_index (demo_buff n) = 0"
  "xdp_data (demo_buff n) = replicate n 0xAB"
  by (simp_all add: demo_buff_def)

lemma demo_peek:
  "xskq_peek_id demo_fq = (Some 0, demo_fq)"
  "xskq_peek_id (demo_fq\<lparr>consumer := 1\<rparr>) = (Some 1, demo_fq\<lparr>consumer := 1\<rparr>)"
  "xskq_peek_id (demo_fq\<lparr>consumer := 2\<rparr>) = (Some 2, demo_fq\<lparr>consumer := 2\<rparr>)"
  by (simp_all add: xskq_peek_id_def xskq_nb_avail_def xskq_validate_pos xskq_is_valid_id_def
        demo_fq_def demo_props_def Let_def)

lemma demo_rx_free:
  "xskq_nb_free demo_rx = 2" "xskq_nb_free demo_rx1 = 1" "xskq_nb_free demo_rx2 = 0"
  by (simp_all add: xskq_nb_free_def demo_rx_def demo_rx1_def demo_rx2_def xskq_create_def)

lemma demo_rcv1:
  "xsk_rcv demo_state 3 (demo_buff 64) = Some (0, demo_rcv1)"
  "dev (xsks demo_rcv1 3) = Some 1" "queue_id (xsks demo_rcv1 3) = 0"
  "umem (xsks demo_rcv1 3) = Some 0" "fq (umems demo_rcv1 0) = Some (demo_fq\<lparr>consumer := 1\<rparr>)"
  "rx (xsks demo_rcv1 3) = Some demo_rx1" "rx_dropped (xsks demo_rcv1 3) = 0"
  "frame_headroom (umems demo_rcv1 0) = 0"
proof -
  have eq: "xsk_rcv demo_state 3 (demo_buff 64) = Some (0, demo_rcv1)"
    unfolding demo_rcv1_def
    by (simp add: xsk_rcv_eq [where xs = 3 and up = 0 and q = demo_fq and i = 0 and q' = demo_fq
                                and r = demo_rx]
          demo_state_rx_facts demo_buff_facts demo_peek demo_rx_free Let_def)
  show "xsk_rcv demo_state 3 (demo_buff 64) = Some (0, demo_rcv1)" by (rule eq)
  have s1: "demo_rcv1 = snd (the (xsk_rcv demo_state 3 (demo_buff 64)))" by (rule demo_rcv1_def)
  note unfold = s1 xsk_rcv_eq [where xs = 3 and up = 0 and q = demo_fq and i = 0 and q' = demo_fq
                                and r = demo_rx]
          demo_state_rx_facts demo_buff_facts demo_peek demo_rx_free Let_def set_defs
          xskq_produce_batch_desc_def xskq_discard_id_def demo_rx1_def
  show "dev (xsks demo_rcv1 3) = Some 1" by (simp add: unfold)
  show "queue_id (xsks demo_rcv1 3) = 0" by (simp add: unfold)
  show "umem (xsks demo_rcv1 3) = Some 0" by (simp add: unfold)
  show "fq (umems demo_rcv1 0) = Some (demo_fq\<lparr>consumer := 1\<rparr>)"
    by (simp add: unfold) (simp add: demo_fq_def)
  show "rx (xsks demo_rcv1 3) = Some demo_rx1"
    by (simp add: unfold) (simp add: demo_rx_def xskq_create_def)
  show "rx_dropped (xsks demo_rcv1 3) = 0" by (simp add: unfold)
  show "frame_headroom (umems demo_rcv1 0) = 0" by (simp add: unfold)
qed

lemma demo_rcv2:
  "xsk_rcv demo_rcv1 3 (demo_buff 64) = Some (0, demo_rcv2)"
  "dev (xsks demo_rcv2 3) = Some 1" "queue_id (xsks demo_rcv2 3) = 0"
  "umem (xsks demo_rcv2 3) = Some 0" "fq (umems demo_rcv2 0) = Some (demo_fq\<lparr>consumer := 2\<rparr>)"
  "rx (xsks demo_rcv2 3) = Some demo_rx2" "rx_dropped (xsks demo_rcv2 3) = 0"
  "frame_headroom (umems demo_rcv2 0) = 0"
proof -
  note step = xsk_rcv_eq [where s = demo_rcv1 and xs = 3 and up = 0 and q = "demo_fq\<lparr>consumer := 1\<rparr>"
                 and i = 1 and q' = "demo_fq\<lparr>consumer := 1\<rparr>" and r = demo_rx1]
  show "xsk_rcv demo_rcv1 3 (demo_buff 64) = Some (0, demo_rcv2)"
    unfolding demo_rcv2_def
    by (simp add: step demo_rcv1 demo_buff_facts demo_peek demo_rx_free Let_def)
  have s2: "demo_rcv2 = snd (the (xsk_rcv demo_rcv1 3 (demo_buff 64)))" by (rule demo_rcv2_def)
  note unfold = s2 step demo_rcv1 demo_buff_facts demo_peek demo_rx_free Let_def set_defs
          xskq_produce_batch_desc_def xskq_discard_id_def demo_rx2_def
  show "dev (xsks demo_rcv2 3) = Some 1" by (simp add: unfold)
  show "queue_id (xsks demo_rcv2 3) = 0" by (simp add: unfold)
  show "umem (xsks demo_rcv2 3) = Some 0" by (simp add: unfold)
  show "fq (umems demo_rcv2 0) = Some (demo_fq\<lparr>consumer := 2\<rparr>)"
    by (simp add: unfold)
  show "rx (xsks demo_rcv2 3) = Some demo_rx2"
    by (simp add: unfold) (simp add: demo_rx1_def demo_rx_def xskq_create_def)
  show "rx_dropped (xsks demo_rcv2 3) = 0" by (simp add: unfold)
  show "frame_headroom (umems demo_rcv2 0) = 0" by (simp add: unfold)
qed

lemma demo_rcv3:
  "xsk_rcv demo_rcv2 3 (demo_buff 64) = Some (- ENOSPC, demo_rcv3)"
  "fq (umems demo_rcv3 0) = Some (demo_fq\<lparr>consumer := 2\<rparr>)"
  "rx (xsks demo_rcv3 3) = Some demo_rx2" "rx_dropped (xsks demo_rcv3 3) = 1"
proof -
  note step = xsk_rcv_eq [where s = demo_rcv2 and xs = 3 and up = 0 and q = "demo_fq\<lparr>consumer := 2\<rparr>"
                 and i = 2 and q' = "demo_fq\<lparr>consumer := 2\<rparr>" and r = demo_rx2]
  show "xsk_rcv demo_rcv2 3 (demo_buff 64) = Some (- ENOSPC, demo_rcv3)"
    unfolding demo_rcv3_def
    by (simp add: step demo_rcv2 demo_buff_facts demo_peek demo_rx_free Let_def)
  have s3: "demo_rcv3 = snd (the (xsk_rcv demo_rcv2 3 (demo_buff 64)))" by (rule demo_rcv3_def)
  note unfold = s3 step demo_rcv2 demo_buff_facts demo_peek demo_rx_free Let_def set_defs
  show "fq (umems demo_rcv3 0) = Some (demo_fq\<lparr>consumer := 2\<rparr>)" by (simp add: unfold)
  show "rx (xsks demo_rcv3 3) = Some demo_rx2" by (simp add: unfold)
  show "rx_dropped (xsks demo_rcv3 3) = 1" by (simp add: unfold)
qed

lemma upt_6: "[0..<6] = [0, 1, 2, 3, 4, 5]"
  by (simp add: upt_rec)

lemma upt_8: "[0..<8] = [0, 1, 2, 3, 4, 5, 6, 7]"
  by (simp add: upt_rec)

lemma demo_fq_contents:
  "xskq_contents demo_fq = [0, 1, 2, 3, 4, 5, 6, 7]"
  "xskq_contents (demo_fq\<lparr>consumer := 2\<rparr>) = [2, 3, 4, 5, 6, 7]"
  by (simp_all add: xskq_contents_def xskq_nb_avail_def demo_fq_def upt_6 upt_8)

theorem xsk_rcv_no_length_check_witness:
  "unat (frame_size (umems demo_state 0)) - unat (frame_headroom (umems demo_state 0))
     < length (xdp_data (demo_buff 2049)) \<and>
   (\<exists>s'. xsk_rcv demo_state 3 (demo_buff 2049) = Some (0, s') \<and>
         rx_dropped (xsks s' 3) = 0 \<and>
         fq (umems s' 0) = Some (xskq_discard_id demo_fq))"
proof -
  have bound: "dev (xsks demo_state 3) = Some (rxq_dev (demo_buff 2049))"
    "queue_id (xsks demo_state 3) = rxq_queue_index (demo_buff 2049)"
    by (simp_all add: demo_state_rx_facts demo_buff_facts)
  from xsk_rcv_no_length_check
         [OF bound demo_state_rx_facts(3) demo_state_rx_facts(4) demo_peek(1) demo_state_rx_facts(5)]
  obtain err s' where r: "xsk_rcv demo_state 3 (demo_buff 2049) = Some (err, s')"
    and ok: "xskq_nb_free demo_rx \<noteq> 0 \<longrightarrow>
             err = 0 \<and> rx_dropped (xsks s' 3) = rx_dropped (xsks demo_state 3) \<and>
             fq (umems s' 0) = Some (xskq_discard_id demo_fq) \<and>
             rx (xsks s' 3) =
               Some (demo_rx\<lparr>ring_slots := (ring_slots demo_rx)(prod_head demo_rx AND ring_mask demo_rx :=
                          \<lparr>idx = 0, len = of_nat (length (xdp_data (demo_buff 2049))),
                           offset = frame_headroom (umems demo_state 0)\<rparr>),
                        prod_head := prod_head demo_rx + 1\<rparr>)"
    by blast
  have free: "xskq_nb_free demo_rx \<noteq> 0" by (simp add: demo_rx_free)
  from ok [THEN mp, OF free] r
  have "xsk_rcv demo_state 3 (demo_buff 2049) = Some (0, s') \<and>
         rx_dropped (xsks s' 3) = 0 \<and>
         fq (umems s' 0) = Some (xskq_discard_id demo_fq)"
    by (simp add: demo_state_rx_facts)
  then have "\<exists>s'. xsk_rcv demo_state 3 (demo_buff 2049) = Some (0, s') \<and>
         rx_dropped (xsks s' 3) = 0 \<and>
         fq (umems s' 0) = Some (xskq_discard_id demo_fq)" ..
  moreover have "unat (frame_size (umems demo_state 0)) - unat (frame_headroom (umems demo_state 0))
     < length (xdp_data (demo_buff 2049))"
    by (simp add: demo_state_rx_facts demo_buff_facts)
  ultimately show ?thesis by (intro conjI)
qed

text \<open>
  The claim as written (a buffer longer than \<open>frame_size - headroom\<close> is dropped, nothing
  is copied, the fill-ring index is not consumed) fails on the demo state: a buffer of
  2049 bytes against frames of 2048 bytes is delivered with result 0, \<open>rx_dropped\<close> stays
  0, the fill ring's consumer moves on to index 1, and byte 2048 of the payload lands in
  the first byte of frame 1.
\<close>

theorem xsk_rcv_no_length_check_counterexample:
  "unat (frame_size (umems demo_state 0)) - unat (frame_headroom (umems demo_state 0))
     < length (xdp_data (demo_buff 2049)) \<and>
   xskq_peek_id demo_fq = (Some 0, demo_fq) \<and>
   (\<exists>s'. xsk_rcv demo_state 3 (demo_buff 2049) = Some (0, s') \<and>
         rx_dropped (xsks s' 3) = rx_dropped (xsks demo_state 3) \<and>
         fq (umems s' 0) = Some (demo_fq\<lparr>consumer := 1\<rparr>) \<and>
         memory demo_state (xdp_umem_get_data (umems demo_state 0) 1) = 0 \<and>
         memory s' (xdp_umem_get_data (umems demo_state 0) 1) = 0xAB)"
proof -
  note step = xsk_rcv_eq [where s = demo_state and xs = 3 and up = 0 and q = demo_fq
                 and i = 0 and q' = demo_fq and r = demo_rx and xdp = "demo_buff 2049"]
  have len: "unat (frame_size (umems demo_state 0)) - unat (frame_headroom (umems demo_state 0))
     < length (xdp_data (demo_buff 2049))"
    by (simp add: demo_state_rx_facts demo_buff_facts)
  have "xsk_rcv demo_state 3 (demo_buff 2049) =
          Some (0, snd (the (xsk_rcv demo_state 3 (demo_buff 2049)))) \<and>
         rx_dropped (xsks (snd (the (xsk_rcv demo_state 3 (demo_buff 2049)))) 3) =
           rx_dropped (xsks demo_state 3) \<and>
         fq (umems (snd (the (xsk_rcv demo_state 3 (demo_buff 2049)))) 0) =
           Some (demo_fq\<lparr>consumer := 1\<rparr>) \<and>
         memory demo_state (xdp_umem_get_data (umems demo_state 0) 1) = 0 \<and>
         memory (snd (the (xsk_rcv demo_state 3 (demo_buff 2049))))
           (xdp_umem_get_data (umems demo_state 0) 1) = 0xAB"
    by (simp add: step demo_state_rx_facts demo_buff_facts demo_peek demo_rx_free Let_def set_defs
          xskq_discard_id_def xdp_umem_get_data_with_headroom_def xdp_umem_get_data_def memcpy_def)
       (simp add: demo_fq_def)
  then have "\<exists>s'. xsk_rcv demo_state 3 (demo_buff 2049) = Some (0, s') \<and>
         rx_dropped (xsks s' 3) = rx_dropped (xsks demo_state 3) \<and>
         fq (umems s' 0) = Some (demo_fq\<lparr>consumer := 1\<rparr>) \<and>
         memory demo_state (xdp_umem_get_data (umems demo_state 0) 1) = 0 \<and>
         memory s' (xdp_umem_get_data (umems demo_state 0) 1) = 0xAB" ..
  with len demo_peek(1) show ?thesis by (intro conjI)
qed

text \<open>
  C3. When the rx ring has no free slot, \<open>xsk_rcv\<close> returns \<open>ENOSPC\<close>, counts a drop and
  leaves the peeked index on the fill ring (a new peek gives the same index); the
  fill-ring entry is consumed exactly when the rx-ring produce succeeds, that is, when
  the call returns 0. On the demo state (fill ring \<open>0..7\<close>, rx ring of capacity 2) three
  deliveries return 0, 0 and \<open>ENOSPC\<close>, and leave the fill ring holding \<open>2..7\<close> and
  \<open>rx_dropped = 1\<close>.
\<close>

theorem xsk_rcv_backpressure:
  assumes bound: "dev (xsks s xs) = Some (rxq_dev xdp)" "queue_id (xsks s xs) = rxq_queue_index xdp"
    and um: "umem (xsks s xs) = Some up"
    and fill: "fq (umems s up) = Some q"
    and peek: "xskq_peek_id q = (Some i, q')"
    and rxq: "rx (xsks s xs) = Some r"
  shows "(\<exists>err s'. xsk_rcv s xs xdp = Some (err, s') \<and>
            (err = 0 \<longleftrightarrow> xskq_nb_free r \<noteq> 0) \<and>
            (xskq_nb_free r = 0 \<longrightarrow>
               err = - ENOSPC \<and> rx_dropped (xsks s' xs) = rx_dropped (xsks s xs) + 1 \<and>
               fq (umems s' up) = Some q' \<and> xskq_peek_id q' = (Some i, q')) \<and>
            (xskq_nb_free r \<noteq> 0 \<longrightarrow> fq (umems s' up) = Some (xskq_discard_id q'))) \<and>
         (xskq_contents demo_fq = [0, 1, 2, 3, 4, 5, 6, 7] \<and> nentries demo_rx = 2 \<and>
          xsk_rcv demo_state 3 (demo_buff 64) = Some (0, demo_rcv1) \<and>
          xsk_rcv demo_rcv1 3 (demo_buff 64) = Some (0, demo_rcv2) \<and>
          xsk_rcv demo_rcv2 3 (demo_buff 64) = Some (- ENOSPC, demo_rcv3) \<and>
          map_option xskq_contents (fq (umems demo_rcv3 0)) = Some [2, 3, 4, 5, 6, 7] \<and>
          rx_dropped (xsks demo_rcv3 3) = 1)"
proof (rule conjI)
  have again: "xskq_peek_id q' = (Some i, q')" using peek by (rule xskq_peek_id_again)
  show "\<exists>err s'. xsk_rcv s xs xdp = Some (err, s') \<and>
            (err = 0 \<longleftrightarrow> xskq_nb_free r \<noteq> 0) \<and>
            (xskq_nb_free r = 0 \<longrightarrow>
               err = - ENOSPC \<and> rx_dropped (xsks s' xs) = rx_dropped (xsks s xs) + 1 \<and>
               fq (umems s' up) = Some q' \<and> xskq_peek_id q' = (Some i, q')) \<and>
            (xskq_nb_free r \<noteq> 0 \<longrightarrow> fq (umems s' up) = Some (xskq_discard_id q'))"
  proof (cases "xskq_nb_free r = 0")
    case True
    then show ?thesis
      using again by (simp add: xsk_rcv_eq [OF assms] Let_def set_defs ENOSPC_def)
  next
    case False
    then show ?thesis
      by (simp add: xsk_rcv_eq [OF assms] Let_def set_defs)
  qed
next
  show "xskq_contents demo_fq = [0, 1, 2, 3, 4, 5, 6, 7] \<and> nentries demo_rx = 2 \<and>
          xsk_rcv demo_state 3 (demo_buff 64) = Some (0, demo_rcv1) \<and>
          xsk_rcv demo_rcv1 3 (demo_buff 64) = Some (0, demo_rcv2) \<and>
          xsk_rcv demo_rcv2 3 (demo_buff 64) = Some (- ENOSPC, demo_rcv3) \<and>
          map_option xskq_contents (fq (umems demo_rcv3 0)) = Some [2, 3, 4, 5, 6, 7] \<and>
          rx_dropped (xsks demo_rcv3 3) = 1"
    by (simp add: demo_fq_contents demo_rcv1(1) demo_rcv2(1) demo_rcv3 demo_rx_def xskq_create_def)
qed

theorem xsk_rcv_backpressure_witness:
  "xskq_nb_free demo_rx2 = 0 \<and>
   (\<exists>s'. xsk_rcv demo_rcv2 3 (demo_buff 64) = Some (- ENOSPC, s') \<and>
         rx_dropped (xsks s' 3) = 1 \<and>
         fq (umems s' 0) = Some (demo_fq\<lparr>consumer := 2\<rparr>) \<and>
         xskq_peek_id (demo_fq\<lparr>consumer := 2\<rparr>) = (Some 2, demo_fq\<lparr>consumer := 2\<rparr>))"
proof -
  have bound: "dev (xsks demo_rcv2 3) = Some (rxq_dev (demo_buff 64))"
    "queue_id (xsks demo_rcv2 3) = rxq_queue_index (demo_buff 64)"
    by (simp_all add: demo_rcv2 demo_buff_facts)
  from xsk_rcv_backpressure
         [OF bound demo_rcv2(4) demo_rcv2(5) demo_peek(3) demo_rcv2(6), THEN conjunct1]
  obtain err s' where r: "xsk_rcv demo_rcv2 3 (demo_buff 64) = Some (err, s')"
    and full: "xskq_nb_free demo_rx2 = 0 \<longrightarrow>
               err = - ENOSPC \<and> rx_dropped (xsks s' 3) = rx_dropped (xsks demo_rcv2 3) + 1 \<and>
               fq (umems s' 0) = Some (demo_fq\<lparr>consumer := 2\<rparr>) \<and>
               xskq_peek_id (demo_fq\<lparr>consumer := 2\<rparr>) = (Some 2, demo_fq\<lparr>consumer := 2\<rparr>)"
    by blast
  have free: "xskq_nb_free demo_rx2 = 0" by (simp add: demo_rx_free)
  from full [THEN mp, OF free] r
  have "xsk_rcv demo_rcv2 3 (demo_buff 64) = Some (- ENOSPC, s') \<and>
         rx_dropped (xsks s' 3) = 1 \<and>
         fq (umems s' 0) = Some (demo_fq\<lparr>consumer := 2\<rparr>) \<and>
         xskq_peek_id (demo_fq\<lparr>consumer := 2\<rparr>) = (Some 2, demo_fq\<lparr>consumer := 2\<rparr>)"
    by (simp add: demo_rcv2)
  then have "\<exists>s'. xsk_rcv demo_rcv2 3 (demo_buff 64) = Some (- ENOSPC, s') \<and>
         rx_dropped (xsks s' 3) = 1 \<and>
         fq (umems s' 0) = Some (demo_fq\<lparr>consumer := 2\<rparr>) \<and>
         xskq_peek_id (demo_fq\<lparr>consumer := 2\<rparr>) = (Some 2, demo_fq\<lparr>consumer := 2\<rparr>)" ..
  with free show ?thesis by (intro conjI)
qed

subsection \<open>The completion ring: reserve, then produce\<close>

lemma unat_add_small:
  fixes a b n :: u32
  assumes "unat a + unat b \<le> unat n"
  shows "unat (a + b) = unat a + unat b"
proof -
  have "unat n < 2 ^ LENGTH(32)" using unsigned_less [of n] by simp
  then have "unat a + unat b < 2 ^ LENGTH(32)" using assms by simp
  then show ?thesis by (rule unat_add_lem [THEN iffD1])
qed

lemma unat_suc_small:
  fixes b n :: u32
  assumes "unat b < unat n"
  shows "unat (b + 1) = unat b + 1"
  using unat_add_small [of b 1 n] assms by simp

lemma cq_ok_reserve:
  assumes ok: "cq_ok c k" and res: "xskq_reserve_id c = (0, c')"
  shows "cq_ok c' (Suc k) \<and> c' = c\<lparr>prod_head := prod_head c + 1\<rparr>"
proof -
  define a where "a = producer c - consumer c"
  define b where "b = prod_head c - producer c"
  have free: "xskq_nb_free c \<noteq> 0" and c': "c' = c\<lparr>prod_head := prod_head c + 1\<rparr>"
    using res by (auto simp: xskq_reserve_id_def ENOSPC_def split: if_splits)
  have le: "unat a + unat b \<le> unat (nentries c)" and k: "k \<le> unat b"
    using ok by (simp_all add: cq_ok_def a_def b_def)
  have sum: "unat (a + b) = unat a + unat b"
    using le by (rule unat_add_small)
  have ab: "a + b = prod_head c - consumer c" by (simp add: a_def b_def)
  have "a + b \<noteq> nentries c"
    using free unfolding ab by (simp add: xskq_nb_free_def)
  then have "unat (a + b) \<noteq> unat (nentries c)" by (simp add: word_unat_eq_iff)
  then have lt: "unat a + unat b < unat (nentries c)" using le sum by simp
  then have "unat b < unat (nentries c)" by simp
  then have b1: "unat (b + 1) = unat b + 1" by (rule unat_suc_small)
  have eb: "prod_head c + 1 - producer c = b + 1" by (simp add: b_def)
  have "cq_ok c' (Suc k)"
    unfolding cq_ok_def c' using lt k b1
    by (simp add: eb) (simp add: a_def)
  then show ?thesis using c' by simp
qed

lemma cq_ok_reserve_fail:
  "xskq_reserve_id c = (r, c') \<Longrightarrow> r \<noteq> 0 \<Longrightarrow> c' = c"
  by (auto simp: xskq_reserve_id_def split: if_splits)

lemma cq_ok_mono: "cq_ok c k \<Longrightarrow> j \<le> k \<Longrightarrow> cq_ok c j"
  by (simp add: cq_ok_def)

lemma cq_ok_produce:
  assumes ok: "cq_ok c (Suc k)"
  shows "xskq_produce_id c i =
           (0, c\<lparr>ring_slots := (ring_slots c)(producer c AND ring_mask c := i),
                 producer := producer c + 1\<rparr>) \<and>
         cq_ok (snd (xskq_produce_id c i)) k"
proof -
  define a where "a = producer c - consumer c"
  define b where "b = prod_head c - producer c"
  have le: "unat a + unat b \<le> unat (nentries c)" and k: "Suc k \<le> unat b"
    using ok by (simp_all add: cq_ok_def a_def b_def)
  then have lt: "unat a < unat (nentries c)" by simp
  then have ne: "a \<noteq> nentries c" by auto
  have a1: "unat (a + 1) = unat a + 1" using lt by (rule unat_suc_small)
  have b0: "b \<noteq> 0" using k by auto
  have b1: "unat (b - 1) = unat b - 1" using b0 by (simp add: unat_minus_one)
  have ea: "producer c + 1 - consumer c = a + 1" by (simp add: a_def)
  have eb: "prod_head c - (producer c + 1) = b - 1" by (simp add: b_def)
  have r: "xskq_produce_id c i =
           (0, c\<lparr>ring_slots := (ring_slots c)(producer c AND ring_mask c := i),
                 producer := producer c + 1\<rparr>)"
    using ne by (simp add: xskq_produce_id_def a_def)
  have "cq_ok (c\<lparr>ring_slots := (ring_slots c)(producer c AND ring_mask c := i),
                 producer := producer c + 1\<rparr>) k"
    unfolding cq_ok_def using le k a1 b1 by (simp add: ea eb)
  then show ?thesis using r by simp
qed

lemma cq_ok_consume:
  assumes ok: "cq_ok c k" and avail: "xskq_nb_avail c \<noteq> 0"
  shows "cq_ok (c\<lparr>consumer := consumer c + 1\<rparr>) k"
proof -
  define a where "a = producer c - consumer c"
  have a0: "a \<noteq> 0" using avail by (simp add: xskq_nb_avail_def a_def)
  have ea: "producer c - (consumer c + 1) = a - 1" by (simp add: a_def)
  have a1: "unat (a - 1) = unat a - 1" using a0 by (simp add: unat_minus_one)
  have "unat a + unat (prod_head c - producer c) \<le> unat (nentries c)"
    and "k \<le> unat (prod_head c - producer c)"
    using ok by (simp_all add: cq_ok_def a_def)
  then show ?thesis
    unfolding cq_ok_def using a1 by (simp add: ea)
qed

text \<open>\<open>tx_inv\<close> looks at the completion rings, the sockets' umem and the buffers in flight only.\<close>

lemma tx_inv_cong:
  assumes "\<And>up. cq (umems s' up) = cq (umems s up)"
    and "\<And>x. umem (xsks s' x) = umem (xsks s x)"
    and "inflight s' = inflight s"
  shows "tx_inv s' = tx_inv s"
proof -
  have "pending s' up = pending s up" for up
    by (simp add: pending_def assms)
  then show ?thesis by (simp add: tx_inv_def assms cong: option.case_cong)
qed

lemma tx_inv_set_tx [simp]: "tx_inv (set_tx sk t s) = tx_inv s"
  by (rule tx_inv_cong) (simp_all add: set_defs)

lemma tx_inv_log_event [simp]: "tx_inv (log_event es s) = tx_inv s"
  by (rule tx_inv_cong) (simp_all add: set_defs)

lemma pending_set_cq [simp]: "pending (set_cq up c s) up' = pending s up'"
  by (simp add: pending_def set_defs)

lemma tx_inv_set_cq:
  assumes inv: "tx_inv s" and ok: "cq_ok c' (pending s up)"
  shows "tx_inv (set_cq up c' s)"
  unfolding tx_inv_def
proof (intro conjI allI ballI)
  fix up'
  show "case cq (umems (set_cq up c' s) up') of None \<Rightarrow> pending (set_cq up c' s) up' = 0
        | Some c \<Rightarrow> cq_ok c (pending (set_cq up c' s) up')"
  proof (cases "up' = up")
    case True
    then show ?thesis using ok by (simp add: set_defs pending_def)
  next
    case False
    have "cq (umems (set_cq up c' s) up') = cq (umems s up')"
      using False by (simp add: set_defs)
    then show ?thesis
      using inv [unfolded tx_inv_def, THEN conjunct1, THEN spec, of up']
      by (simp split: option.splits)
  qed
next
  fix skb assume "skb \<in> set (inflight (set_cq up c' s))"
  then have "skb \<in> set (inflight s)" by (simp add: set_defs)
  then have "umem (xsks s (skb_sk skb)) \<noteq> None"
    using inv by (simp add: tx_inv_def)
  then show "umem (xsks (set_cq up c' s) (skb_sk skb)) \<noteq> None" by (simp add: set_defs)
qed

text \<open>After a reservation, one more buffer for the same umem may go in flight.\<close>

lemma tx_inv_submit:
  assumes inv: "tx_inv s" and um: "umem (xsks s sk) = Some up"
    and ok: "cq_ok c' (Suc (pending s up))" and sk: "skb_sk skb = sk"
  shows "tx_inv ((set_cq up c' s)\<lparr>inflight := inflight (set_cq up c' s) @ [skb]\<rparr>)"
  unfolding tx_inv_def
proof (intro conjI allI ballI)
  let ?s' = "(set_cq up c' s)\<lparr>inflight := inflight (set_cq up c' s) @ [skb]\<rparr>"
  fix up'
  show "case cq (umems ?s' up') of None \<Rightarrow> pending ?s' up' = 0
        | Some c \<Rightarrow> cq_ok c (pending ?s' up')"
  proof (cases "up' = up")
    case True
    have "pending ?s' up = Suc (pending s up)"
      using um sk by (simp add: pending_def set_defs)
    then show ?thesis using ok True by (simp add: set_defs)
  next
    case False
    have "pending ?s' up' = pending s up'"
      using um sk False by (simp add: pending_def set_defs)
    moreover have "cq (umems ?s' up') = cq (umems s up')"
      using False by (simp add: set_defs)
    ultimately show ?thesis
      using inv [unfolded tx_inv_def, THEN conjunct1, THEN spec, of up']
      by (simp split: option.splits)
  qed
next
  let ?s' = "(set_cq up c' s)\<lparr>inflight := inflight (set_cq up c' s) @ [skb]\<rparr>"
  fix b assume "b \<in> set (inflight ?s')"
  then have "b \<in> set (inflight s) \<or> b = skb" by (auto simp: set_defs)
  then have "umem (xsks s (skb_sk b)) \<noteq> None"
    using inv um sk by (auto simp: tx_inv_def)
  then show "umem (xsks ?s' (skb_sk b)) \<noteq> None" by (simp add: set_defs)
qed

lemma tx_inv_cq:
  assumes inv: "tx_inv s" and c: "cq (umems s up) = Some c"
  shows "cq_ok c (pending s up)"
  using inv [unfolded tx_inv_def, THEN conjunct1, THEN spec, of up] c by simp

text \<open>One iteration of the transmit loop keeps the invariant.\<close>

lemma xsk_generic_xmit_body_inv:
  assumes inv: "tx_inv s" and body: "xsk_generic_xmit_body e sk d s = Some (r, s')"
  shows "tx_inv s'"
proof -
  from body obtain up where um: "umem (xsks s sk) = Some up"
    by (auto simp: xsk_generic_xmit_body_def Let_def split: option.splits)
  from body um obtain c where c: "cq (umems s up) = Some c"
    by (auto simp: xsk_generic_xmit_body_def Let_def split: option.splits)
  obtain rerr c' where res: "xskq_reserve_id c = (rerr, c')" by (cases "xskq_reserve_id c")
  have okc: "cq_ok c (pending s up)" using inv c by (rule tx_inv_cq)
  show ?thesis
  proof (cases "rerr = 0")
    case False
    with res have "c' = c" by (rule cq_ok_reserve_fail)
    then have "tx_inv (set_cq up c' s)" using inv okc by (simp add: tx_inv_set_cq)
    moreover have "s' = set_cq up c' s"
      using body um c res False by (simp add: xsk_generic_xmit_body_def Let_def)
    ultimately show ?thesis by simp
  next
    case True
    with res okc have ok': "cq_ok c' (Suc (pending s up))"
      using cq_ok_reserve by blast
    then have ok0: "cq_ok c' (pending s up)" by (rule cq_ok_mono) simp
    have inv1: "tx_inv (set_cq up c' s)" using inv ok0 by (rule tx_inv_set_cq)
    have sub: "tx_inv ((set_cq up c' s)\<lparr>inflight := inflight (set_cq up c' s) @ [skb]\<rparr>)"
      if "skb_sk skb = sk" for skb
      using inv um ok' that by (rule tx_inv_submit)
    from body um c res True obtain dv where dv: "dev (xsks s sk) = Some dv"
      by (auto simp: xsk_generic_xmit_body_def Let_def split: option.splits)
    show ?thesis
      using body um c res True dv inv1 sub
      by (auto simp: xsk_generic_xmit_body_def Let_def split: option.splits if_splits)
  qed
qed

lemma xsk_generic_xmit_loop_inv:
  "tx_inv s \<Longrightarrow> xsk_generic_xmit_loop env sk max_batch i sent err s = Some (r, sent', s') \<Longrightarrow>
   tx_inv s'"
proof (induction max_batch arbitrary: i sent err s)
  case 0
  then show ?case
    by (auto split: option.splits prod.splits)
next
  case (Suc max_batch)
  from Suc.prems(2) obtain t where t: "tx (xsks s sk) = Some t"
    by (auto split: option.splits)
  obtain d t' where p: "xskq_peek_desc t = (d, t')" by (cases "xskq_peek_desc t")
  show ?case
  proof (cases d)
    case None
    with Suc.prems t p show ?thesis by auto
  next
    case (Some dd)
    have inv0: "tx_inv (set_tx sk t' s)" using Suc.prems(1) by simp
    from Suc.prems(2) t p Some obtain b s1
      where b: "xsk_generic_xmit_body (env i) sk dd (set_tx sk t' s) = Some (b, s1)"
      by (auto split: option.splits)
    have inv1: "tx_inv s1" using inv0 b by (rule xsk_generic_xmit_body_inv)
    show ?thesis
    proof (cases b)
      case (Inl e)
      with Suc.prems(2) t p Some b have "s' = s1" by simp
      with inv1 show ?thesis by simp
    next
      case (Inr e)
      with Suc.prems(2) t p Some b
      have "xsk_generic_xmit_loop env sk max_batch (Suc i) True e s1 = Some (r, sent', s')"
        by simp
      with inv1 show ?thesis by (rule Suc.IH)
    qed
  qed
qed

lemma xsk_sendmsg_inv:
  assumes inv: "tx_inv s" and send: "xsk_sendmsg s sock msg_flags env = Some (r, s')"
  shows "tx_inv s'"
proof -
  from send obtain sk where sk: "socket_sk s sock = Some sk"
    by (auto simp: xsk_sendmsg_def split: option.splits)
  show ?thesis
  proof (cases "xsk_generic_xmit_loop env sk TX_BATCH_SIZE 0 False 0 s")
    case None
    with send sk inv show ?thesis
      by (auto simp: xsk_sendmsg_def xsk_generic_xmit_def Let_def split: option.splits if_splits)
  next
    case (Some res)
    obtain e sent s1 where res: "res = (e, sent, s1)" by (cases res)
    have "tx_inv s1" using inv Some [unfolded res] by (rule xsk_generic_xmit_loop_inv)
    with send sk inv Some res show ?thesis
      by (auto simp: xsk_sendmsg_def xsk_generic_xmit_def Let_def split: option.splits if_splits)
  qed
qed

lemma user_consume_cq_inv:
  assumes inv: "tx_inv s"
  shows "tx_inv (user_consume_cq s up)"
proof (cases "cq (umems s up)")
  case None
  with inv show ?thesis by (simp add: user_consume_cq_def)
next
  case (Some c)
  have ok: "cq_ok c (pending s up)" using inv Some by (rule tx_inv_cq)
  show ?thesis
  proof (cases "xskq_nb_avail c = 0")
    case True
    with inv Some show ?thesis by (simp add: user_consume_cq_def)
  next
    case False
    with ok have "cq_ok (c\<lparr>consumer := consumer c + 1\<rparr>) (pending s up)"
      by (rule cq_ok_consume)
    with inv have "tx_inv (set_cq up (c\<lparr>consumer := consumer c + 1\<rparr>) s)"
      by (rule tx_inv_set_cq)
    with Some False show ?thesis by (simp add: user_consume_cq_def)
  qed
qed

lemma pending_remove1:
  assumes "skb \<in> set (inflight s)"
  shows "pending (s\<lparr>inflight := remove1 skb (inflight s)\<rparr>) up =
          (if umem (xsks s (skb_sk skb)) = Some up then pending s up - 1 else pending s up)"
proof -
  let ?P = "\<lambda>b. umem (xsks s (skb_sk b)) = Some up"
  have "filter ?P (remove1 skb (inflight s)) = remove1 skb (filter ?P (inflight s))"
    by (rule filter_remove1)
  moreover have "skb \<in> set (filter ?P (inflight s)) \<longleftrightarrow> ?P skb"
    using assms by simp
  ultimately show ?thesis
    by (simp add: pending_def length_remove1)
qed

text \<open>
  Under the invariant, the destructor of a buffer in flight finds the completion ring
  of its socket, the produce succeeds, and the invariant holds again.
\<close>

lemma xsk_destruct_skb_inv:
  assumes inv: "tx_inv s" and fl: "skb \<in> set (inflight s)"
  shows "\<exists>up c c'. umem (xsks s (skb_sk skb)) = Some up \<and> cq (umems s up) = Some c \<and>
           xskq_produce_id c (destructor_arg skb) = (0, c') \<and>
           xsk_destruct_skb s skb =
             Some (log_event [Sock_wfree] ((set_cq up c' s)\<lparr>inflight := remove1 skb (inflight s)\<rparr>)) \<and>
           tx_inv (log_event [Sock_wfree] ((set_cq up c' s)\<lparr>inflight := remove1 skb (inflight s)\<rparr>))"
proof -
  from inv fl obtain up where um: "umem (xsks s (skb_sk skb)) = Some up"
    by (auto simp: tx_inv_def)
  have "skb \<in> set (filter (\<lambda>b. umem (xsks s (skb_sk b)) = Some up) (inflight s))"
    using fl um by simp
  then have "pending s up \<noteq> 0" unfolding pending_def by (metis length_0_conv empty_iff empty_set)
  then obtain k where k: "pending s up = Suc k" by (cases "pending s up") simp_all
  have "cq (umems s up) \<noteq> None"
    using inv [unfolded tx_inv_def, THEN conjunct1, THEN spec, of up] k
    by (auto split: option.splits)
  then obtain c where c: "cq (umems s up) = Some c" by blast
  have ok: "cq_ok c (Suc k)" using tx_inv_cq [OF inv c] k by simp
  note P = cq_ok_produce [OF ok, of "destructor_arg skb"]
  define c' where "c' = c\<lparr>ring_slots := (ring_slots c)(producer c AND ring_mask c := destructor_arg skb),
                         producer := producer c + 1\<rparr>"
  have prod: "xskq_produce_id c (destructor_arg skb) = (0, c')"
    using P [THEN conjunct1] by (simp only: c'_def)
  have ok': "cq_ok c' k"
    using P [THEN conjunct2] unfolding prod by simp
  let ?s1 = "set_cq up c' s"
  let ?s' = "?s1\<lparr>inflight := remove1 skb (inflight s)\<rparr>"
  have run: "xsk_destruct_skb s skb = Some (log_event [Sock_wfree] ?s')"
    using um c prod by (simp add: xsk_destruct_skb_def Let_def WARN_ON_ONCE_def)
  have "tx_inv ?s'"
    unfolding tx_inv_def
  proof (intro conjI allI ballI)
    fix up'
    have fl1: "skb \<in> set (inflight ?s1)" using fl by (simp add: set_defs)
    have eq: "?s' = ?s1\<lparr>inflight := remove1 skb (inflight ?s1)\<rparr>" by (simp add: set_defs)
    have um1: "umem (xsks ?s1 (skb_sk skb)) = Some up" using um by (simp add: set_defs)
    have pend: "pending ?s' up' = (if up' = up then k else pending s up')"
      unfolding eq using pending_remove1 [OF fl1, of up'] k by (auto simp: um1)
    show "case cq (umems ?s' up') of None \<Rightarrow> pending ?s' up' = 0
          | Some c \<Rightarrow> cq_ok c (pending ?s' up')"
    proof (cases "up' = up")
      case True
      then show ?thesis using ok' pend by (simp add: set_defs)
    next
      case False
      then have "cq (umems ?s' up') = cq (umems s up')" by (simp add: set_defs)
      then show ?thesis
        using inv [unfolded tx_inv_def, THEN conjunct1, THEN spec, of up'] pend False
        by (simp split: option.splits)
    qed
  next
    fix b assume "b \<in> set (inflight ?s')"
    then have "b \<in> set (inflight s)" using set_remove1_subset [of skb "inflight s"] by auto
    then have "umem (xsks s (skb_sk b)) \<noteq> None" using inv by (simp add: tx_inv_def)
    then show "umem (xsks ?s' (skb_sk b)) \<noteq> None" by (simp add: set_defs)
  qed
  then have "tx_inv (log_event [Sock_wfree] ?s')" by simp
  with um c prod run show ?thesis by blast
qed

subsection \<open>Sendmsg and the device MTU\<close>

lemma xskq_peek_desc_again:
  "xskq_peek_desc q = (Some d, q') \<Longrightarrow> xskq_peek_desc q' = (Some d, q')"
  unfolding xskq_peek_desc_def by (rule xskq_validate_again) simp_all

text \<open>
  C6. Take an iteration of the transmit loop (some of the batch is left) in which the
  peeked descriptor \<open>d\<close> is longer than the device MTU and the reservation on the
  completion ring succeeded. Then the loop ends with \<open>EMSGSIZE\<close>, and so does
  \<open>xsk_sendmsg\<close> when this is its first iteration. The descriptor is still the first of
  the tx ring; the completion ring has the same counters, slots and entries as before,
  but one more slot reserved; no buffer was handed to the device.
\<close>

theorem xsk_generic_xmit_msgsize:
  assumes txq: "tx (xsks s sk) = Some t" and peek: "xskq_peek_desc t = (Some d, t')"
    and um: "umem (xsks s sk) = Some up" and cqr: "cq (umems s up) = Some c"
    and res: "xskq_reserve_id c = (0, c')"
    and dv: "dev (xsks s sk) = Some dv" and big: "mtu (netdevs s dv) < len d"
  shows "\<exists>s'. (\<forall>max_batch i sent err.
                  xsk_generic_xmit_loop env sk (Suc max_batch) i sent err s =
                    Some (- EMSGSIZE, sent, s')) \<and>
              (socket_sk s sock = Some sk \<and> dev_flags (netdevs s dv) AND IFF_UP \<noteq> 0 \<and>
               msg_flags AND MSG_DONTWAIT \<noteq> 0 \<longrightarrow>
                 xsk_sendmsg s sock msg_flags env = Some (- EMSGSIZE, s')) \<and>
              tx (xsks s' sk) = Some t' \<and> xskq_peek_desc t' = (Some d, t') \<and>
              cq (umems s' up) = Some c' \<and>
              producer c' = producer c \<and> consumer c' = consumer c \<and>
              ring_slots c' = ring_slots c \<and> xskq_contents c' = xskq_contents c \<and>
              prod_head c' = prod_head c + 1 \<and>
              inflight s' = inflight s \<and> trace s' = trace s"
proof -
  define s' where "s' = set_cq up c' (set_tx sk t' s)"
  have c': "c' = c\<lparr>prod_head := prod_head c + 1\<rparr>"
    using res by (auto simp: xskq_reserve_id_def ENOSPC_def split: if_splits)
  have body: "xsk_generic_xmit_body e sk d (set_tx sk t' s) = Some (Inl (- EMSGSIZE), s')" for e
    using um cqr res dv big
    by (simp add: xsk_generic_xmit_body_def Let_def set_defs s'_def)
  have loop: "xsk_generic_xmit_loop env sk (Suc max_batch) i sent err s =
                Some (- EMSGSIZE, sent, s')" for max_batch i sent err
    using txq peek body by simp
  have send: "xsk_sendmsg s sock msg_flags env = Some (- EMSGSIZE, s')"
    if "socket_sk s sock = Some sk" "dev_flags (netdevs s dv) AND IFF_UP \<noteq> 0"
      "msg_flags AND MSG_DONTWAIT \<noteq> 0"
    using that dv txq loop [of 15 0 False 0]
    by (simp add: xsk_sendmsg_def xsk_generic_xmit_def TX_BATCH_SIZE_def Let_def)
  have again: "xskq_peek_desc t' = (Some d, t')" using peek by (rule xskq_peek_desc_again)
  have st: "tx (xsks s' sk) = Some t'" "cq (umems s' up) = Some c'"
    "inflight s' = inflight s" "trace s' = trace s"
    by (simp_all add: s'_def set_defs)
  have cc: "producer c' = producer c" "consumer c' = consumer c" "ring_slots c' = ring_slots c"
    "xskq_contents c' = xskq_contents c" "prod_head c' = prod_head c + 1"
    by (simp_all add: c' xskq_contents_def xskq_nb_avail_def)
  show ?thesis
    by (rule exI [of _ s']) (use loop send again st cc in blast)
qed

lemma xsk_generic_xmit_loop_pos:
  "0 < max_batch \<Longrightarrow>
   xsk_generic_xmit_loop env sk max_batch i sent_frame err s =
    (case tx (xsks s sk) of None \<Rightarrow> None
     | Some t \<Rightarrow>
       (case xskq_peek_desc t of
          (None, t') \<Rightarrow> Some (err, sent_frame, set_tx sk t' s)
        | (Some d, t') \<Rightarrow>
          (case xsk_generic_xmit_body (env i) sk d (set_tx sk t' s) of
             None \<Rightarrow> None
           | Some (Inl err', s') \<Rightarrow> Some (err', sent_frame, s')
           | Some (Inr err', s') \<Rightarrow>
               xsk_generic_xmit_loop env sk (max_batch - 1) (Suc i) True err' s')))"
  by (cases max_batch) (simp_all split: option.splits prod.splits sum.splits)

lemma demo_tx_peek:
  "xskq_peek_desc demo_tx = (Some \<lparr>idx = 0, len = 2000, offset = 0\<rparr>, demo_tx)"
  "xskq_peek_desc demo_tx2 = (Some \<lparr>idx = 0, len = 64, offset = 0\<rparr>, demo_tx2)"
  "xskq_peek_desc (xskq_discard_desc demo_tx2) =
     (Some \<lparr>idx = 1, len = 100, offset = 0\<rparr>, xskq_discard_desc demo_tx2)"
  "xskq_peek_desc (xskq_discard_desc (xskq_discard_desc demo_tx2)) =
     (None, xskq_discard_desc (xskq_discard_desc demo_tx2))"
  by (simp_all add: xskq_peek_desc_def xskq_nb_avail_def xskq_validate_pos xskq_is_valid_desc_def
        xskq_discard_desc_def demo_tx_def demo_tx2_def demo_props_def xskq_create_def zero_desc_def Let_def)

lemma demo_cq_reserve:
  "xskq_reserve_id demo_cq = (0, demo_cq\<lparr>prod_head := 1\<rparr>)"
  "xskq_reserve_id (demo_cq\<lparr>prod_head := 1\<rparr>) = (0, demo_cq\<lparr>prod_head := 2\<rparr>)"
  by (simp_all add: xskq_reserve_id_def xskq_nb_free_def demo_cq_def xskq_create_def)

lemma demo_state_tx_facts:
  "socket_sk demo_state 3 = Some 3" "tx (xsks demo_state 3) = Some demo_tx"
  "cq (umems demo_state 0) = Some demo_cq" "mtu (netdevs demo_state d) = 1500"
  "dev_flags (netdevs demo_state d) = 1" "inflight demo_state = []" "trace demo_state = []"
  "warned demo_state = False"
  by (simp_all add: demo_state_def demo_sock_def demo_umem_def)

theorem xsk_generic_xmit_msgsize_witness:
  "xskq_contents demo_tx = [\<lparr>idx = 0, len = 2000, offset = 0\<rparr>] \<and>
   mtu (netdevs demo_state 1) = 1500 \<and>
   (\<exists>s'. xsk_sendmsg demo_state 3 MSG_DONTWAIT demo_env = Some (- EMSGSIZE, s') \<and>
         map_option xskq_contents (tx (xsks s' 3)) = Some [\<lparr>idx = 0, len = 2000, offset = 0\<rparr>] \<and>
         map_option xskq_contents (cq (umems s' 0)) = Some [] \<and>
         map_option prod_head (cq (umems s' 0)) = Some 1 \<and>
         inflight s' = [])"
proof -
  have big: "mtu (netdevs demo_state 1) < len \<lparr>idx = 0, len = 2000, offset = 0\<rparr>"
    by (simp add: demo_state_tx_facts)
  from xsk_generic_xmit_msgsize
         [OF demo_state_tx_facts(2) demo_tx_peek(1) demo_state_rx_facts(3) demo_state_tx_facts(3)
             demo_cq_reserve(1) demo_state_rx_facts(1) big, of demo_env 3 MSG_DONTWAIT]
  obtain s' where
    send: "socket_sk demo_state 3 = Some 3 \<and> dev_flags (netdevs demo_state 1) AND IFF_UP \<noteq> 0 \<and>
               MSG_DONTWAIT AND MSG_DONTWAIT \<noteq> 0 \<longrightarrow>
                 xsk_sendmsg demo_state 3 MSG_DONTWAIT demo_env = Some (- EMSGSIZE, s')"
    and st: "tx (xsks s' 3) = Some demo_tx" "cq (umems s' 0) = Some (demo_cq\<lparr>prod_head := 1\<rparr>)"
      "xskq_contents (demo_cq\<lparr>prod_head := 1\<rparr>) = xskq_contents demo_cq"
      "inflight s' = inflight demo_state"
    by blast
  have pre: "socket_sk demo_state 3 = Some 3 \<and> dev_flags (netdevs demo_state 1) AND IFF_UP \<noteq> 0 \<and>
               MSG_DONTWAIT AND MSG_DONTWAIT \<noteq> 0"
    by (simp add: demo_state_tx_facts IFF_UP_def MSG_DONTWAIT_def)
  have txc: "xskq_contents demo_tx = [\<lparr>idx = 0, len = 2000, offset = 0\<rparr>]"
    by (simp add: xskq_contents_def xskq_nb_avail_def demo_tx_def xskq_create_def)
  have cqc: "xskq_contents demo_cq = []"
    by (simp add: xskq_contents_def xskq_nb_avail_def demo_cq_def xskq_create_def)
  have "xsk_sendmsg demo_state 3 MSG_DONTWAIT demo_env = Some (- EMSGSIZE, s') \<and>
         map_option xskq_contents (tx (xsks s' 3)) = Some [\<lparr>idx = 0, len = 2000, offset = 0\<rparr>] \<and>
         map_option xskq_contents (cq (umems s' 0)) = Some [] \<and>
         map_option prod_head (cq (umems s' 0)) = Some 1 \<and>
         inflight s' = []"
    using send [THEN mp, OF pre] st txc cqc by (simp add: demo_state_tx_facts)
  then have "\<exists>s'. xsk_sendmsg demo_state 3 MSG_DONTWAIT demo_env = Some (- EMSGSIZE, s') \<and>
         map_option xskq_contents (tx (xsks s' 3)) = Some [\<lparr>idx = 0, len = 2000, offset = 0\<rparr>] \<and>
         map_option xskq_contents (cq (umems s' 0)) = Some [] \<and>
         map_option prod_head (cq (umems s' 0)) = Some 1 \<and>
         inflight s' = []" ..
  with txc show ?thesis by (simp add: demo_state_tx_facts)
qed

subsection \<open>The completion handoff\<close>

lemma tx_inv_initial:
  assumes "inflight s = []" and "\<And>up c. cq (umems s up) = Some c \<Longrightarrow> cq_ok c 0"
  shows "tx_inv s"
  using assms by (simp add: tx_inv_def pending_def split: option.splits)

lemma cq_ok_create: "cq_ok (xskq_create z n) 0"
  by (simp add: cq_ok_def xskq_create_def)

lemma xsk_destruct_skb_warns:
  assumes "umem (xsks s (skb_sk skb)) = Some up" and "cq (umems s up) = Some c"
    and "fst (xskq_produce_id c (destructor_arg skb)) \<noteq> 0" and "\<not> warned s"
  shows "\<exists>s'. xsk_destruct_skb s skb = Some s' \<and> warned s' \<and>
              trace s' = trace s @ [Warn_on_once, Sock_wfree]"
  using assms
  by (cases "xskq_produce_id c (destructor_arg skb)")
     (simp add: xsk_destruct_skb_def Let_def WARN_ON_ONCE_def set_defs)

lemma demo_state_tx2_facts:
  "socket_sk demo_state_tx2 3 = Some 3" "tx (xsks demo_state_tx2 3) = Some demo_tx2"
  "umem (xsks demo_state_tx2 3) = Some 0" "dev (xsks demo_state_tx2 3) = Some 1"
  "queue_id (xsks demo_state_tx2 3) = 0"
  "sk_priority (xsks demo_state_tx2 3) = 0" "sk_mark (xsks demo_state_tx2 3) = 0"
  "umems demo_state_tx2 = (\<lambda>_. null_umem)(0 := demo_umem)"
  "mtu (netdevs demo_state_tx2 d) = 1500"
  "dev_flags (netdevs demo_state_tx2 d) = 1" "inflight demo_state_tx2 = []"
  "trace demo_state_tx2 = []" "warned demo_state_tx2 = False"
  "memory demo_state_tx2 = (\<lambda>_. 0)"
  by (simp_all add: demo_state_tx2_def demo_state_def demo_sock_def set_defs)

lemma demo_sent:
  "xsk_sendmsg demo_state_tx2 3 MSG_DONTWAIT demo_env = Some (0, demo_sent)"
  "inflight demo_sent = [demo_skb 0 64, demo_skb 1 100]"
  "cq (umems demo_sent 0) = Some (demo_cq\<lparr>prod_head := 2\<rparr>)"
  "tx (xsks demo_sent 3) = Some (xskq_discard_desc (xskq_discard_desc demo_tx2))"
  "umem (xsks demo_sent 3) = Some 0"
  "warned demo_sent = False"
proof -
  note ev = xsk_sendmsg_def xsk_generic_xmit_def TX_BATCH_SIZE_def xsk_generic_xmit_loop_pos
    xsk_generic_xmit_body_def demo_state_tx2_facts demo_tx_peek demo_cq_reserve Let_def set_defs
    demo_env_def demo_umem_def MSG_DONTWAIT_def IFF_UP_def NET_XMIT_DROP_def NETDEV_TX_BUSY_def
    demo_skb_def xdp_umem_get_data_def
  have run: "xsk_sendmsg demo_state_tx2 3 MSG_DONTWAIT demo_env \<noteq> None \<and>
             fst (the (xsk_sendmsg demo_state_tx2 3 MSG_DONTWAIT demo_env)) = 0"
    by (simp add: ev)
  then show "xsk_sendmsg demo_state_tx2 3 MSG_DONTWAIT demo_env = Some (0, demo_sent)"
    unfolding demo_sent_def by (cases "xsk_sendmsg demo_state_tx2 3 MSG_DONTWAIT demo_env") auto
  show "inflight demo_sent = [demo_skb 0 64, demo_skb 1 100]"
    unfolding demo_sent_def by (simp add: ev)
  show "cq (umems demo_sent 0) = Some (demo_cq\<lparr>prod_head := 2\<rparr>)"
    unfolding demo_sent_def by (simp add: ev)
  show "tx (xsks demo_sent 3) = Some (xskq_discard_desc (xskq_discard_desc demo_tx2))"
    unfolding demo_sent_def by (simp add: ev)
  show "umem (xsks demo_sent 3) = Some 0"
    unfolding demo_sent_def by (simp add: ev)
  show "warned demo_sent = False"
    unfolding demo_sent_def by (simp add: ev)
qed

text \<open>
  C2. \<open>tx_inv\<close> says that every transmit buffer in flight has its reserved slot on the
  completion ring of its socket's umem. It holds when nothing is in flight and the
  completion rings are within capacity (a new ring is), and \<open>xsk_sendmsg\<close> (which
  submits a buffer only after \<open>xskq_reserve_id\<close> succeeded in the same iteration), the
  destructor and user space taking completions keep it. Under it, for every buffer in
  flight \<open>xsk_destruct_skb\<close> finds the completion ring, \<open>xskq_produce_id\<close> returns 0
  and publishes the frame index, and no diagnostic is raised. The result of the produce
  goes to \<open>WARN_ON_ONCE\<close>: were it nonzero, the diagnostic would be logged (the first
  time; the macro reports once).
\<close>

theorem xsk_destruct_skb_produce_succeeds:
  "(inflight s = [] \<and> (\<forall>up c. cq (umems s up) = Some c \<longrightarrow> cq_ok c 0) \<longrightarrow> tx_inv s) \<and>
   cq_ok (xskq_create 0 n) 0 \<and>
   (tx_inv s \<longrightarrow>
      (\<forall>sock msg_flags env r s'.
          xsk_sendmsg s sock msg_flags env = Some (r, s') \<longrightarrow> tx_inv s') \<and>
      (\<forall>up. tx_inv (user_consume_cq s up)) \<and>
      (\<forall>skb \<in> set (inflight s).
          \<exists>up c c'. umem (xsks s (skb_sk skb)) = Some up \<and> cq (umems s up) = Some c \<and>
            xskq_produce_id c (destructor_arg skb) = (0, c') \<and>
            xsk_destruct_skb s skb =
              Some (log_event [Sock_wfree]
                      ((set_cq up c' s)\<lparr>inflight := remove1 skb (inflight s)\<rparr>)) \<and>
            tx_inv (log_event [Sock_wfree]
                      ((set_cq up c' s)\<lparr>inflight := remove1 skb (inflight s)\<rparr>)))) \<and>
   (\<forall>skb up c. umem (xsks s (skb_sk skb)) = Some up \<and> cq (umems s up) = Some c \<and>
      fst (xskq_produce_id c (destructor_arg skb)) \<noteq> 0 \<and> \<not> warned s \<longrightarrow>
      (\<exists>s'. xsk_destruct_skb s skb = Some s' \<and> warned s' \<and>
            trace s' = trace s @ [Warn_on_once, Sock_wfree]))"
proof (intro conjI impI allI ballI)
  assume "inflight s = [] \<and> (\<forall>up c. cq (umems s up) = Some c \<longrightarrow> cq_ok c 0)"
  then show "tx_inv s" by (intro tx_inv_initial) simp_all
next
  show "cq_ok (xskq_create 0 n) 0" by (rule cq_ok_create)
next
  fix sock msg_flags env r s'
  assume "tx_inv s" and "xsk_sendmsg s sock msg_flags env = Some (r, s')"
  then show "tx_inv s'" by (rule xsk_sendmsg_inv)
next
  fix up assume "tx_inv s"
  then show "tx_inv (user_consume_cq s up)" by (rule user_consume_cq_inv)
next
  fix skb assume "tx_inv s" and "skb \<in> set (inflight s)"
  then show "\<exists>up c c'. umem (xsks s (skb_sk skb)) = Some up \<and> cq (umems s up) = Some c \<and>
            xskq_produce_id c (destructor_arg skb) = (0, c') \<and>
            xsk_destruct_skb s skb =
              Some (log_event [Sock_wfree]
                      ((set_cq up c' s)\<lparr>inflight := remove1 skb (inflight s)\<rparr>)) \<and>
            tx_inv (log_event [Sock_wfree]
                      ((set_cq up c' s)\<lparr>inflight := remove1 skb (inflight s)\<rparr>))"
    by (rule xsk_destruct_skb_inv)
next
  fix skb :: sk_buff and up c
  assume a: "umem (xsks s (skb_sk skb)) = Some up \<and> cq (umems s up) = Some c \<and>
      fst (xskq_produce_id c (destructor_arg skb)) \<noteq> 0 \<and> \<not> warned s"
  show "\<exists>s'. xsk_destruct_skb s skb = Some s' \<and> warned s' \<and>
            trace s' = trace s @ [Warn_on_once, Sock_wfree]"
    using a by (intro xsk_destruct_skb_warns [of s skb up c]) simp_all
qed

lemma upt_2: "[0..<2] = [0, 1]"
  by (simp add: upt_rec)

text \<open>
  Scenario E3 on the demo state: the invariant holds at the start; \<open>sendmsg\<close> submits
  both frames and returns 0; the destructor then runs for both buffers without a
  diagnostic, and leaves the completion ring holding \<open>[0, 1]\<close> and the tx ring empty.
\<close>

theorem xsk_destruct_skb_produce_succeeds_witness:
  "tx_inv demo_state_tx2 \<and>
   xsk_sendmsg demo_state_tx2 3 MSG_DONTWAIT demo_env = Some (0, demo_sent) \<and>
   inflight demo_sent = [demo_skb 0 64, demo_skb 1 100] \<and>
   tx_inv demo_sent \<and>
   xsk_destruct_skb demo_sent (demo_skb 0 64) = Some demo_done1 \<and>
   xsk_destruct_skb demo_done1 (demo_skb 1 100) = Some demo_done2 \<and>
   map_option xskq_contents (cq (umems demo_done2 0)) = Some [0, 1] \<and>
   map_option xskq_contents (tx (xsks demo_done2 3)) = Some [] \<and>
   inflight demo_done2 = [] \<and> warned demo_done2 = False \<and>
   trace demo_done2 = trace demo_sent @ [Sock_wfree, Sock_wfree]"
proof -
  note T = xsk_destruct_skb_produce_succeeds
  \<comment> \<open>the invariant at the start\<close>
  have base: "inflight demo_state_tx2 = [] \<and>
              (\<forall>up c. cq (umems demo_state_tx2 up) = Some c \<longrightarrow> cq_ok c 0)"
    by (simp add: demo_state_tx2_facts demo_umem_def null_umem_def demo_cq_def xskq_create_def
          cq_ok_def)
  have inv0: "tx_inv demo_state_tx2"
    using T [of demo_state_tx2, THEN conjunct1] base by (rule mp)
  \<comment> \<open>sendmsg keeps it\<close>
  have inv1: "tx_inv demo_sent"
    using T [of demo_state_tx2, THEN conjunct2, THEN conjunct2, THEN conjunct1, THEN mp,
             OF inv0, THEN conjunct1] demo_sent(1)
    by blast
  \<comment> \<open>the first destructor\<close>
  define c1 where "c1 = demo_cq\<lparr>prod_head := 2, ring_slots := (ring_slots demo_cq)(0 := 0),
                              producer := 1\<rparr>"
  define c2 where "c2 = c1\<lparr>ring_slots := (ring_slots c1)(1 := 1), producer := 2\<rparr>"
  have p1: "xskq_produce_id (demo_cq\<lparr>prod_head := 2\<rparr>) 0 = (0, c1)"
    by (simp add: xskq_produce_id_def demo_cq_def xskq_create_def c1_def)
  have p2: "xskq_produce_id c1 1 = (0, c2)"
    by (simp add: xskq_produce_id_def demo_cq_def xskq_create_def c1_def c2_def)
  have skb_sk: "skb_sk (demo_skb i n) = 3" and arg: "destructor_arg (demo_skb i n) = i" for i n
    by (simp_all add: demo_skb_def)
  have in1: "demo_skb 0 64 \<in> set (inflight demo_sent)" by (simp add: demo_sent)
  from T [of demo_sent, THEN conjunct2, THEN conjunct2, THEN conjunct1, THEN mp, OF inv1,
          THEN conjunct2, THEN conjunct2, THEN bspec, OF in1]
  obtain up c c' where d1: "umem (xsks demo_sent (skb_sk (demo_skb 0 64))) = Some up"
      "cq (umems demo_sent up) = Some c"
      "xskq_produce_id c (destructor_arg (demo_skb 0 64)) = (0, c')"
      "xsk_destruct_skb demo_sent (demo_skb 0 64) =
         Some (log_event [Sock_wfree]
                 ((set_cq up c' demo_sent)\<lparr>inflight := remove1 (demo_skb 0 64) (inflight demo_sent)\<rparr>))"
      "tx_inv (log_event [Sock_wfree]
                 ((set_cq up c' demo_sent)\<lparr>inflight := remove1 (demo_skb 0 64) (inflight demo_sent)\<rparr>))"
    by blast
  have up0: "up = 0" using d1(1) by (simp add: skb_sk demo_sent)
  have c: "c = demo_cq\<lparr>prod_head := 2\<rparr>" using d1(2) by (simp add: up0 demo_sent)
  have c': "c' = c1" using d1(3) by (simp add: c arg p1)
  have done1: "demo_done1 = log_event [Sock_wfree]
                 ((set_cq 0 c1 demo_sent)\<lparr>inflight := [demo_skb 1 100]\<rparr>)"
    unfolding demo_done1_def d1(4) by (simp add: up0 c' demo_sent)
  have r1: "xsk_destruct_skb demo_sent (demo_skb 0 64) = Some demo_done1"
    unfolding demo_done1_def d1(4) by simp
  have inv2: "tx_inv demo_done1"
    using d1(5) unfolding done1 by (simp add: up0 c' demo_sent)
  \<comment> \<open>the second destructor\<close>
  have f1: "inflight demo_done1 = [demo_skb 1 100]" "umem (xsks demo_done1 3) = Some 0"
    "cq (umems demo_done1 0) = Some c1"
    "tx (xsks demo_done1 3) = Some (xskq_discard_desc (xskq_discard_desc demo_tx2))"
    "warned demo_done1 = False" "trace demo_done1 = trace demo_sent @ [Sock_wfree]"
    by (simp_all add: done1 set_defs demo_sent)
  have in2: "demo_skb 1 100 \<in> set (inflight demo_done1)" by (simp add: f1)
  from T [of demo_done1, THEN conjunct2, THEN conjunct2, THEN conjunct1, THEN mp, OF inv2,
          THEN conjunct2, THEN conjunct2, THEN bspec, OF in2]
  obtain up2 d c'' where d2: "umem (xsks demo_done1 (skb_sk (demo_skb 1 100))) = Some up2"
      "cq (umems demo_done1 up2) = Some d"
      "xskq_produce_id d (destructor_arg (demo_skb 1 100)) = (0, c'')"
      "xsk_destruct_skb demo_done1 (demo_skb 1 100) =
         Some (log_event [Sock_wfree]
                 ((set_cq up2 c'' demo_done1)\<lparr>inflight := remove1 (demo_skb 1 100) (inflight demo_done1)\<rparr>))"
    by blast
  have up2: "up2 = 0" using d2(1) by (simp add: skb_sk f1)
  have d: "d = c1" using d2(2) by (simp add: up2 f1)
  have c'': "c'' = c2" using d2(3) by (simp add: d arg p2)
  have done2: "demo_done2 = log_event [Sock_wfree] ((set_cq 0 c2 demo_done1)\<lparr>inflight := []\<rparr>)"
    unfolding demo_done2_def d2(4) by (simp add: up2 c'' f1)
  have r2: "xsk_destruct_skb demo_done1 (demo_skb 1 100) = Some demo_done2"
    unfolding demo_done2_def d2(4) by simp
  have cqc: "xskq_contents c2 = [0, 1]"
    by (simp add: xskq_contents_def xskq_nb_avail_def c2_def c1_def demo_cq_def xskq_create_def upt_2)
  have txc: "xskq_contents (xskq_discard_desc (xskq_discard_desc demo_tx2)) = []"
    by (simp add: xskq_contents_def xskq_nb_avail_def xskq_discard_desc_def demo_tx2_def
          demo_tx_def xskq_create_def)
  have f2: "map_option xskq_contents (cq (umems demo_done2 0)) = Some [0, 1]"
    "map_option xskq_contents (tx (xsks demo_done2 3)) = Some []"
    "inflight demo_done2 = []" "warned demo_done2 = False"
    "trace demo_done2 = trace demo_sent @ [Sock_wfree, Sock_wfree]"
    by (simp_all add: done2 set_defs f1 cqc txc)
  show ?thesis
    using inv0 demo_sent(1,2) inv1 r1 r2 f2 by (intro conjI)
qed

end
